theory Spec2Isabelle
  imports Complex_Main "HOL-Library.Multiset"
begin

section \<open>JavaScript numbers\<close>

text \<open>
  Every number of \<^verbatim>\<open>server/index.js\<close> is an IEEE 754 binary64 value. A finite value is
  \<open>Fin s m e\<close>, standing for \<open>(-1)^s * m * 2^e\<close> (\<open>s = True\<close> is the minus sign); the
  operations return it in the format's own normal form: \<open>2^52 \<le> m < 2^53\<close> with
  \<open>-1074 \<le> e \<le> 971\<close>, or \<open>m < 2^52\<close> with \<open>e = -1074\<close> (zero and the subnormals).
  \<open>Inf s\<close> is the infinity of sign \<open>s\<close>, \<open>NaN\<close> the one not-a-number value a script can see.
\<close>

datatype f64 = NaN | Inf bool | Fin bool nat int

fun bitlen :: "nat \<Rightarrow> int" where
  "bitlen n = (if n = 0 then 0 else 1 + bitlen (n div 2))"

declare bitlen.simps [simp del]

text \<open>\<open>ilog2_ratio a b\<close> is the integer part of the binary logarithm of \<open>a / b\<close>.\<close>

definition ilog2_ratio :: "nat \<Rightarrow> nat \<Rightarrow> int" where
  "ilog2_ratio a b =
     (let d = bitlen a - bitlen b
      in if (if 0 \<le> d then b * 2 ^ nat d \<le> a else b \<le> a * 2 ^ nat (- d)) then d else d - 1)"

text \<open>
  Rounding to nearest, ties to even: \<open>round_f64 s a b e\<close> is the binary64 value nearest to
  \<open>(-1)^s * (a / b) * 2^e\<close>. The exponent is the one that leaves 53 significant bits, but
  never below \<open>-1074\<close>; a result beyond the largest finite value is an infinity.
\<close>

definition round_f64 :: "bool \<Rightarrow> nat \<Rightarrow> nat \<Rightarrow> int \<Rightarrow> f64" where
  "round_f64 s a b e =
     (if a = 0 then Fin s 0 (- 1074)
      else
        let E = max (e + ilog2_ratio a b - 52) (- 1074);
            sh = e - E;
            num = (if 0 \<le> sh then a * 2 ^ nat sh else a);
            den = (if 0 \<le> sh then b else b * 2 ^ nat (- sh));
            q = num div den;
            r = num mod den;
            q' = (if den < 2 * r \<or> (2 * r = den \<and> odd q) then q + 1 else q);
            m = (if q' = 2 ^ 53 then 2 ^ 52 else q');
            E' = (if q' = 2 ^ 53 then E + 1 else E)
        in if 971 < E' then Inf s else Fin s m E')"

definition signed :: "bool \<Rightarrow> nat \<Rightarrow> int" where
  "signed s n = (if s then - int n else int n)"

fun fneg :: "f64 \<Rightarrow> f64" where
  "fneg NaN = NaN"
| "fneg (Inf s) = Inf (\<not> s)"
| "fneg (Fin s m e) = Fin (\<not> s) m e"

text \<open>
  \<^verbatim>\<open>x + y\<close>: a zero leaves the other operand as it is (two zeros give \<open>-0\<close> only when
  both are \<open>-0\<close>); otherwise the exact sum of the two values is rounded once, and an exact
  sum of zero is \<open>+0\<close>.
\<close>

fun fadd :: "f64 \<Rightarrow> f64 \<Rightarrow> f64" where
  "fadd NaN y = NaN"
| "fadd x NaN = NaN"
| "fadd (Inf s) (Inf t) = (if s = t then Inf s else NaN)"
| "fadd (Inf s) (Fin t m e) = Inf s"
| "fadd (Fin s m e) (Inf t) = Inf t"
| "fadd (Fin s1 m1 e1) (Fin s2 m2 e2) =
     (if m1 = 0 \<and> m2 = 0 then Fin (s1 \<and> s2) 0 (- 1074)
      else if m1 = 0 then Fin s2 m2 e2
      else if m2 = 0 then Fin s1 m1 e1
      else
        let e = min e1 e2;
            i = signed s1 (m1 * 2 ^ nat (e1 - e)) + signed s2 (m2 * 2 ^ nat (e2 - e))
        in if i = 0 then Fin False 0 (- 1074) else round_f64 (i < 0) (nat \<bar>i\<bar>) 1 e)"

text \<open>\<^verbatim>\<open>x - y\<close>\<close>

definition fsub :: "f64 \<Rightarrow> f64 \<Rightarrow> f64" where
  "fsub x y = fadd x (fneg y)"

text \<open>\<^verbatim>\<open>x * y\<close>\<close>

fun fmul :: "f64 \<Rightarrow> f64 \<Rightarrow> f64" where
  "fmul NaN y = NaN"
| "fmul x NaN = NaN"
| "fmul (Inf s) (Inf t) = Inf (s \<noteq> t)"
| "fmul (Inf s) (Fin t m e) = (if m = 0 then NaN else Inf (s \<noteq> t))"
| "fmul (Fin s m e) (Inf t) = (if m = 0 then NaN else Inf (s \<noteq> t))"
| "fmul (Fin s1 m1 e1) (Fin s2 m2 e2) = round_f64 (s1 \<noteq> s2) (m1 * m2) 1 (e1 + e2)"

text \<open>\<^verbatim>\<open>x / y\<close>: division by zero is no error in JavaScript, \<^verbatim>\<open>0 / 0\<close> is \<^verbatim>\<open>NaN\<close>.\<close>

fun fdiv :: "f64 \<Rightarrow> f64 \<Rightarrow> f64" where
  "fdiv NaN y = NaN"
| "fdiv x NaN = NaN"
| "fdiv (Inf s) (Inf t) = NaN"
| "fdiv (Inf s) (Fin t m e) = Inf (s \<noteq> t)"
| "fdiv (Fin s m e) (Inf t) = Fin (s \<noteq> t) 0 (- 1074)"
| "fdiv (Fin s1 m1 e1) (Fin s2 m2 e2) =
     (if m2 = 0 then (if m1 = 0 then NaN else Inf (s1 \<noteq> s2))
      else round_f64 (s1 \<noteq> s2) m1 m2 (e1 - e2))"

text \<open>The integer square root, bit by bit from the top.\<close>

fun isqrt_aux :: "nat \<Rightarrow> nat \<Rightarrow> nat \<Rightarrow> nat" where
  "isqrt_aux n r 0 = r"
| "isqrt_aux n r (Suc i) = (let c = r + 2 ^ i in isqrt_aux n (if c * c \<le> n then c else r) i)"

definition isqrt :: "nat \<Rightarrow> nat" where
  "isqrt n = isqrt_aux n 0 (nat ((bitlen n + 1) div 2))"

text \<open>
  \<^verbatim>\<open>Math.sqrt(x)\<close>, correctly rounded: the root of the significand, scaled by \<open>2^110\<close>, is
  taken as an integer of at least 56 bits, and one more bit records whether it is exact.
\<close>

fun fsqrt :: "f64 \<Rightarrow> f64" where
  "fsqrt NaN = NaN"
| "fsqrt (Inf s) = (if s then NaN else Inf False)"
| "fsqrt (Fin s m e) =
     (if m = 0 then Fin s 0 (- 1074)
      else if s then NaN
      else
        let m' = (if even e then m else 2 * m);
            e' = (if even e then e else e - 1);
            n = m' * 2 ^ 110;
            r = isqrt n
        in round_f64 False (2 * r + (if r * r = n then 0 else 1)) 2 (e' div 2 - 55))"

text \<open>The literals \<^verbatim>\<open>0\<close>, \<^verbatim>\<open>1\<close> and \<^verbatim>\<open>-1\<close>.\<close>

definition zero :: f64 where
  "zero = Fin False 0 (- 1074)"

definition one :: f64 where
  "one = Fin False 4503599627370496 (- 52)"

definition minus_one :: f64 where
  "minus_one = Fin True 4503599627370496 (- 52)"

text \<open>The comparison \<^verbatim>\<open>x < y\<close>: false as soon as one side is \<^verbatim>\<open>NaN\<close>.\<close>

fun f64_lt :: "f64 \<Rightarrow> f64 \<Rightarrow> bool" where
  "f64_lt NaN y = False"
| "f64_lt x NaN = False"
| "f64_lt (Inf s) (Inf t) = (s \<and> \<not> t)"
| "f64_lt (Inf s) (Fin t m e) = s"
| "f64_lt (Fin s m e) (Inf t) = (\<not> t)"
| "f64_lt (Fin s1 m1 e1) (Fin s2 m2 e2) =
     (let e = min e1 e2
      in signed s1 (m1 * 2 ^ nat (e1 - e)) < signed s2 (m2 * 2 ^ nat (e2 - e)))"

text \<open>\<^verbatim>\<open>x >= y\<close>\<close>

definition f64_ge :: "f64 \<Rightarrow> f64 \<Rightarrow> bool" where
  "f64_ge x y = (x \<noteq> NaN \<and> y \<noteq> NaN \<and> \<not> f64_lt x y)"

text \<open>\<^verbatim>\<open>x == y\<close> on numbers: the two zeros are equal, \<^verbatim>\<open>NaN\<close> is equal to nothing.\<close>

definition f64_eq :: "f64 \<Rightarrow> f64 \<Rightarrow> bool" where
  "f64_eq x y = (x \<noteq> NaN \<and> y \<noteq> NaN \<and> \<not> f64_lt x y \<and> \<not> f64_lt y x)"

section \<open>The similarity scorer\<close>

text \<open>
  \<^verbatim>\<open>
  function cosine(a, b) {
    if (!a || !b || a.length !== b.length) return -1
    let dot = 0, na = 0, nb = 0
    for (let i = 0; i < a.length; i++) { dot += a[i] * b[i]; na += a[i] * a[i]; nb += b[i] * b[i] }
    return dot / (Math.sqrt(na) * Math.sqrt(nb))
  }
  \<close>
  An embedding is an array of numbers or absent (\<^verbatim>\<open>null\<close>, \<^verbatim>\<open>undefined\<close>): \<open>f64 list option\<close>.
  An array, even the empty one, is truthy, so \<^verbatim>\<open>!a\<close> holds of the absent embedding only.
  The loop runs over two arrays of the same length.
\<close>

fun cosine_loop :: "f64 list \<Rightarrow> f64 list \<Rightarrow> f64 \<times> f64 \<times> f64 \<Rightarrow> f64 \<times> f64 \<times> f64" where
  "cosine_loop (x # xs) (y # ys) (dot, na, nb) =
     cosine_loop xs ys (fadd dot (fmul x y), fadd na (fmul x x), fadd nb (fmul y y))"
| "cosine_loop [] ys acc = acc"
| "cosine_loop xs [] acc = acc"

definition cosine :: "f64 list option \<Rightarrow> f64 list option \<Rightarrow> f64" where
  "cosine a b =
     (case a of
        None \<Rightarrow> minus_one
      | Some xs \<Rightarrow>
          (case b of
             None \<Rightarrow> minus_one
           | Some ys \<Rightarrow>
               if length xs \<noteq> length ys then minus_one
               else (case cosine_loop xs ys (zero, zero, zero) of
                       (dot, na, nb) \<Rightarrow> fdiv dot (fmul (fsqrt na) (fsqrt nb)))))"

text \<open>A zero of either sign, and the values a sum of zero products can take.\<close>

fun is_zero :: "f64 \<Rightarrow> bool" where
  "is_zero (Fin s m e) = (m = 0)"
| "is_zero x = False"

definition zero_or_nan :: "f64 \<Rightarrow> bool" where
  "zero_or_nan x = (x = NaN \<or> is_zero x)"

section \<open>Records and the module's state\<close>

text \<open>
  An item of \<^verbatim>\<open>vectorStore.vectors\<close> is \<^verbatim>\<open>{ id, text, embedding, meta }\<close>. The metadata is
  opaque to the store; it is kept as a list of key and value.
\<close>

type_synonym meta = "(string \<times> string) list"

record item =
  item_id :: string
  item_text :: string
  item_embedding :: "f64 list option"
  item_meta :: meta

text \<open>The argument \<^verbatim>\<open>{ id, text, meta }\<close> of \<^verbatim>\<open>addVector\<close>; \<^verbatim>\<open>id\<close> and \<^verbatim>\<open>meta\<close> may be missing.\<close>

record add_request =
  req_id :: "string option"
  req_text :: string
  req_meta :: "meta option"

text \<open>
  The Chroma objects are duck-typed: the code asks \<^verbatim>\<open>typeof x.f === 'function'\<close> before each
  call, so a collection or a client is the set of methods it has.
\<close>

record chroma_collection =
  has_add :: bool
  has_upsert :: bool
  has_query :: bool
  has_get :: bool
  has_delete :: bool
  has_clear :: bool

record chroma_client =
  client_has_add :: bool
  client_has_query :: bool
  client_has_getCollection :: bool
  client_has_createCollection :: bool
  client_has_deleteCollection :: bool

datatype store_type = Memory | Chroma

text \<open>
  The module-level variables the vector store lives in: \<^verbatim>\<open>vectorStore.vectors\<close>,
  \<^verbatim>\<open>vectorStore.type\<close>, \<^verbatim>\<open>chromaClient\<close> and \<^verbatim>\<open>chromaCollection\<close> (\<open>None\<close> is \<^verbatim>\<open>null\<close>).
\<close>

record server =
  vectors :: "item list"
  store_kind :: store_type
  chromaClient :: "chroma_client option"
  chromaCollection :: "chroma_collection option"

definition initial_server :: server where
  "initial_server =
     \<lparr>vectors = [], store_kind = Memory, chromaClient = None, chromaCollection = None\<rparr>"

section \<open>The remote service\<close>

text \<open>
  Chroma is outside the repository. An awaited call either throws or returns, and what it
  does is an input of the model: one outcome for each method the code calls. Every
  operation also reports the calls it made, in order.
\<close>

datatype 'a outcome = Throws | Returns 'a

datatype remote_call =
    CollectionAdd | CollectionUpsert | ClientAdd
  | CollectionQuery | ClientQuery
  | CollectionGet
  | CollectionDelete | CollectionClear | ClientDeleteCollection | ClientCreateCollection
  | ClientConstruct | ClientGetCollection

text \<open>
  The answer \<^verbatim>\<open>q\<close> of a query, read as the code reads it: \<^verbatim>\<open>q.documents[0]\<close>, \<^verbatim>\<open>q.ids[0]\<close>
  and \<^verbatim>\<open>q.distances[0]\<close>, each possibly missing. An answer the code cannot read
  (\<^verbatim>\<open>q\<close> itself \<^verbatim>\<open>null\<close>) raises a TypeError inside the same \<^verbatim>\<open>try\<close>: it is \<open>Throws\<close>.
\<close>

record query_response =
  q_documents :: "string option list option"
  q_ids :: "string list option"
  q_distances :: "f64 list option"

text \<open>A field of the answer \<^verbatim>\<open>g\<close> of \<^verbatim>\<open>get\<close>: an array, or an array of arrays.\<close>

datatype 'a shape = Flat "'a list" | Nested "'a list list"

record get_response =
  g_ids :: "string shape option"
  g_documents :: "string shape option"
  g_metadatas :: "meta shape option"
  g_embeddings :: "f64 list shape option"

record remote =
  collection_add :: "unit outcome"
  collection_upsert :: "unit outcome"
  client_add :: "unit outcome"
  collection_query :: "query_response outcome"
  client_query :: "query_response outcome"
  collection_get :: "get_response outcome"
  collection_delete :: "unit outcome"
  collection_clear :: "unit outcome"
  client_deleteCollection :: "unit outcome"
  client_createCollection :: "chroma_collection option outcome"
  client_construct :: "chroma_client outcome"
  client_getCollection :: "chroma_collection option outcome"

section \<open>Initialisation of Chroma\<close>

text \<open>
  Lines 77 to 127. \<open>enable_chroma\<close> is \<^verbatim>\<open>process.env.ENABLE_CHROMA === 'true'\<close> and
  \<open>chroma_module\<close> says that \<^verbatim>\<open>require('chromadb')\<close> succeeded. Whichever constructor the
  credentials select (\<^verbatim>\<open>CloudClient\<close>, \<^verbatim>\<open>ChromaClient\<close>, \<^verbatim>\<open>Client\<close>), the client is built by one
  \<^verbatim>\<open>new\<close>, which throws or returns: \<open>client_construct\<close>. Only that step is under the outer
  \<^verbatim>\<open>catch\<close>; the lookup of the collection has its own, and the creation inside it another.
\<close>

record chroma_config =
  enable_chroma :: bool
  chroma_module :: bool

definition setup_collection :: "chroma_client \<Rightarrow> remote \<Rightarrow> server \<Rightarrow> server \<times> remote_call list" where
  "setup_collection cl rem st =
     (if client_has_getCollection cl then
        (case client_getCollection rem of
           Returns c \<Rightarrow> (st\<lparr>chromaCollection := c\<rparr>, [ClientGetCollection])
         | Throws \<Rightarrow>
             if client_has_createCollection cl then
               (case client_createCollection rem of
                  Returns c \<Rightarrow>
                    (st\<lparr>chromaCollection := c\<rparr>, [ClientGetCollection, ClientCreateCollection])
                | Throws \<Rightarrow>
                    (st\<lparr>chromaCollection := None\<rparr>, [ClientGetCollection, ClientCreateCollection]))
             else (st, [ClientGetCollection]))
      else (st, []))"

definition chroma_init :: "chroma_config \<Rightarrow> remote \<Rightarrow> server \<Rightarrow> server \<times> remote_call list" where
  "chroma_init cfg rem st =
     (if enable_chroma cfg \<and> chroma_module cfg then
        (case client_construct rem of
           Throws \<Rightarrow> (st\<lparr>chromaClient := None, chromaCollection := None\<rparr>, [ClientConstruct])
         | Returns cl \<Rightarrow>
             (case setup_collection cl rem (st\<lparr>chromaClient := Some cl\<rparr>) of
                (st', calls) \<Rightarrow>
                  (if chromaCollection st' \<noteq> None then st'\<lparr>store_kind := Chroma\<rparr> else st',
                   ClientConstruct # calls)))
      else (st, []))"

text \<open>
  The initialisation has failed when Chroma was enabled and the client could not be built,
  or the collection could be neither fetched nor created.
\<close>

definition init_failed :: "chroma_config \<Rightarrow> remote \<Rightarrow> bool" where
  "init_failed cfg rem =
     (enable_chroma cfg \<and> chroma_module cfg \<and>
      (case client_construct rem of
         Throws \<Rightarrow> True
       | Returns cl \<Rightarrow>
           client_has_getCollection cl \<and> client_getCollection rem = Throws \<and>
           (client_has_createCollection cl \<longrightarrow> client_createCollection rem = Throws)))"

section \<open>The embedding helper\<close>

text \<open>
  \<^verbatim>\<open>
  async function embedText(text) {
    if (!openaiClient) return null
    try {
      const resp = await openaiClient.embeddings.create({ model: ..., input: text })
      return resp.data && resp.data[0] && resp.data[0].embedding
    } catch (err) {
      console.error('embedding error', ...)
      return null
    }
  }
  \<close>
  Reading an identifier that no scope binds throws a ReferenceError, and the first read of
  \<^verbatim>\<open>openaiClient\<close> is outside the \<^verbatim>\<open>try\<close>. So the scope is part of the model: a map from the
  names of the client variables to their values, \<open>None\<close> for a name that is not declared.
  A client variable holds \<^verbatim>\<open>null\<close> or a client, and a client is what its
  \<^verbatim>\<open>embeddings.create\<close> does with a text: it throws, or returns a response whose
  \<^verbatim>\<open>data[0].embedding\<close> is an embedding or nothing.
\<close>

datatype js_error = ReferenceError string

datatype openai_client = OpenAIClient "string \<Rightarrow> f64 list option outcome"

type_synonym scope = "string \<rightharpoonup> openai_client option"

text \<open>
  The client variables \<^verbatim>\<open>server/index.js\<close> declares (lines 36 and 37), with the values the
  configuration gives them. The file declares no other client, and no \<^verbatim>\<open>openaiClient\<close>.
\<close>

definition module_scope :: "openai_client option \<Rightarrow> openai_client option \<Rightarrow> scope" where
  "module_scope chat emb = [''openaiChatClient'' \<mapsto> chat, ''openaiEmbeddingsClient'' \<mapsto> emb]"

definition embedText :: "scope \<Rightarrow> string \<Rightarrow> js_error + f64 list option" where
  "embedText sc txt =
     (case sc ''openaiClient'' of
        None \<Rightarrow> Inl (ReferenceError ''openaiClient'')
      | Some None \<Rightarrow> Inr None
      | Some (Some (OpenAIClient create)) \<Rightarrow>
          (case create txt of Throws \<Rightarrow> Inr None | Returns r \<Rightarrow> Inr r))"

section \<open>Adding a record\<close>

text \<open>\<^verbatim>\<open>(n).toString()\<close> of a non-negative integer: its decimal digits.\<close>

definition digit_char :: "nat \<Rightarrow> char" where
  "digit_char d = ''0123456789'' ! d"

fun toString :: "nat \<Rightarrow> string" where
  "toString n = (if n < 10 then [digit_char n] else toString (n div 10) @ [digit_char (n mod 10)])"

declare toString.simps [simp del]

text \<open>
  \<^verbatim>\<open>
  const item = { id: id || (vectorStore.vectors.length + 1).toString(), text,
                 embedding: emb, meta: meta || {} }
  \<close>
  A missing \<^verbatim>\<open>id\<close> and the empty string are both falsy.
\<close>

definition make_item :: "server \<Rightarrow> f64 list option \<Rightarrow> add_request \<Rightarrow> item" where
  "make_item st emb req =
     \<lparr>item_id = (case req_id req of
                   None \<Rightarrow> toString (length (vectors st) + 1)
                 | Some i \<Rightarrow> if i = [] then toString (length (vectors st) + 1) else i),
      item_text = req_text req,
      item_embedding = emb,
      item_meta = (case req_meta req of None \<Rightarrow> [] | Some m \<Rightarrow> m)\<rparr>"

text \<open>
  Lines 159 to 181: the first method found is the only one called; when it returns, the
  item is returned at once, and when it throws, the \<^verbatim>\<open>catch\<close> leads to the in-memory store.
  The result says which calls were made and whether the item was returned from there.
\<close>

definition chroma_add :: "server \<Rightarrow> remote \<Rightarrow> remote_call list \<times> bool" where
  "chroma_add st rem =
     (case chromaCollection st of
        None \<Rightarrow> ([], False)
      | Some c \<Rightarrow>
          if has_add c then ([CollectionAdd], collection_add rem = Returns ())
          else if has_upsert c then ([CollectionUpsert], collection_upsert rem = Returns ())
          else (case chromaClient st of
                  None \<Rightarrow> ([], False)
                | Some cl \<Rightarrow>
                    if client_has_add cl then ([ClientAdd], client_add rem = Returns ())
                    else ([], False)))"

text \<open>Lines 156 to 185 of \<^verbatim>\<open>addVector\<close>: what it does once the embedding is there.\<close>

definition addVector_store ::
  "server \<Rightarrow> f64 list option \<Rightarrow> add_request \<Rightarrow> remote \<Rightarrow> item \<times> server \<times> remote_call list" where
  "addVector_store st emb req rem =
     (let it = make_item st emb req
      in case chroma_add st rem of
           (calls, returned) \<Rightarrow>
             (it, if returned then st else st\<lparr>vectors := vectors st @ [it]\<rparr>, calls))"

text \<open>
  \<^verbatim>\<open>const emb = await embedText(text)\<close> is the first statement and is under no \<^verbatim>\<open>try\<close>: an
  error of \<^verbatim>\<open>embedText\<close> is an error of \<^verbatim>\<open>addVector\<close>.
\<close>

definition addVector ::
  "scope \<Rightarrow> server \<Rightarrow> add_request \<Rightarrow> remote \<Rightarrow> js_error + item \<times> server \<times> remote_call list" where
  "addVector sc st req rem =
     (case embedText sc (req_text req) of
        Inl err \<Rightarrow> Inl err
      | Inr emb \<Rightarrow> Inr (addVector_store st emb req rem))"

section \<open>Querying\<close>

text \<open>
  A hit of the in-memory store is \<^verbatim>\<open>{ ...v, score }\<close>: a fresh object with the fields of the
  item and its score. A hit of Chroma is \<^verbatim>\<open>{ id, text, score }\<close> with whatever the answer
  holds at that index.
\<close>

type_synonym scored = "item \<times> f64"

datatype hit = MemoryHit item f64 | ChromaHit string "string option" "f64 option"

text \<open>\<^verbatim>\<open>xs[i]\<close>: \<^verbatim>\<open>undefined\<close> beyond the end.\<close>

definition elem_at :: "'a list \<Rightarrow> nat \<Rightarrow> 'a option" where
  "elem_at xs i = (if i < length xs then Some (xs ! i) else None)"

definition or_empty :: "'a list option \<Rightarrow> 'a list" where
  "or_empty xs = (case xs of None \<Rightarrow> [] | Some ys \<Rightarrow> ys)"

text \<open>
  \<^verbatim>\<open>
  for (let i = 0; i < docs.length; i++)
    out.push({ id: ids[i] || (i + 1).toString(), text: docs[i], score: distances[i] })
  \<close>
\<close>

definition chroma_hits :: "query_response \<Rightarrow> hit list" where
  "chroma_hits q =
     (let docs = or_empty (q_documents q); ids = or_empty (q_ids q);
          distances = or_empty (q_distances q)
      in map (\<lambda>i. ChromaHit
                     (case elem_at ids i of
                        None \<Rightarrow> toString (i + 1)
                      | Some s \<Rightarrow> if s = [] then toString (i + 1) else s)
                     (docs ! i)
                     (elem_at distances i))
           [0..<length docs])"

definition chroma_query :: "server \<Rightarrow> remote \<Rightarrow> remote_call list \<times> hit list option" where
  "chroma_query st rem =
     (case chromaCollection st of
        None \<Rightarrow> ([], None)
      | Some c \<Rightarrow>
          if has_query c then
            ([CollectionQuery],
             case collection_query rem of Throws \<Rightarrow> None | Returns q \<Rightarrow> Some (chroma_hits q))
          else (case chromaClient st of
                  None \<Rightarrow> ([], None)
                | Some cl \<Rightarrow>
                    if client_has_query cl then
                      ([ClientQuery],
                       case client_query rem of Throws \<Rightarrow> None | Returns q \<Rightarrow> Some (chroma_hits q))
                    else ([], None)))"

text \<open>
  \<^verbatim>\<open>scored.sort((a, b) => b.score - a.score)\<close>. The comparator's value \<open>v\<close> is used as
  ECMAScript's SortCompare uses it: \<^verbatim>\<open>NaN\<close> counts as \<open>0\<close>, and \<open>a\<close> goes before \<open>b\<close> when
  \<open>v < 0\<close>; \<open>score\<close> reads the \<^verbatim>\<open>score\<close> field of an element.
\<close>

fun is_neg :: "f64 \<Rightarrow> bool" where
  "is_neg NaN = False"
| "is_neg (Inf s) = s"
| "is_neg (Fin s m e) = (s \<and> m \<noteq> 0)"

definition before :: "f64 \<Rightarrow> f64 \<Rightarrow> bool" where
  "before a_score b_score = is_neg (fsub b_score a_score)"

text \<open>The stable insertion sort driven by that comparator.\<close>

fun sort_insert :: "('a \<Rightarrow> f64) \<Rightarrow> 'a \<Rightarrow> 'a list \<Rightarrow> 'a list" where
  "sort_insert score x [] = [x]"
| "sort_insert score x (y # ys) =
     (if before (score y) (score x) then y # sort_insert score x ys else x # y # ys)"

fun stable_sort :: "('a \<Rightarrow> f64) \<Rightarrow> 'a list \<Rightarrow> 'a list" where
  "stable_sort score [] = []"
| "stable_sort score (x # xs) = sort_insert score x (stable_sort score xs)"

text \<open>
  The sorting algorithm of an engine sees the values of SortCompare only, and the language
  requires it to be stable. When no score is \<^verbatim>\<open>NaN\<close>, these values order the elements as
  their scores do, with a tie exactly between equal scores; when no comparison puts any
  element before any other, they are ties only. In both cases \<^verbatim>\<open>sort\<close> has one possible
  result, the stable sort (in the second case the array as it is). Otherwise, with a
  \<^verbatim>\<open>NaN\<close> among scores that differ, the comparisons contradict each other and the result
  depends on the algorithm of the engine: what the engine does then is a parameter of
  the model, a function from the scores of the array to the positions, in the old array,
  of the elements of the new one.
\<close>

type_synonym engine = "f64 list \<Rightarrow> nat list"

definition consistent :: "f64 list \<Rightarrow> bool" where
  "consistent scores =
     (list_all (\<lambda>s. s \<noteq> NaN) scores
      \<or> list_all (\<lambda>a. list_all (\<lambda>b. \<not> before a b) scores) scores)"

definition permute :: "'a list \<Rightarrow> nat list \<Rightarrow> 'a list" where
  "permute xs positions = map (\<lambda>i. xs ! i) (filter (\<lambda>i. i < length xs) positions)"

definition js_sort :: "engine \<Rightarrow> ('a \<Rightarrow> f64) \<Rightarrow> 'a list \<Rightarrow> 'a list" where
  "js_sort engine score xs =
     (if consistent (map score xs) then stable_sort score xs
      else permute xs (engine (map score xs)))"

text \<open>
  \<^verbatim>\<open>xs.slice(0, k)\<close> for an integer \<open>k\<close>: a negative \<open>k\<close> counts from the end.
\<close>

definition slice0 :: "'a list \<Rightarrow> int \<Rightarrow> 'a list" where
  "slice0 xs k = (if k < 0 then take (nat (int (length xs) + k)) xs else take (nat k) xs)"

text \<open>
  Lines 220 to 222:
  \<^verbatim>\<open>
  const scored = vectorStore.vectors.map(v => ({ ...v, score: cosine(embedding, v.embedding) }))
  scored.sort((a, b) => b.score - a.score)
  return scored.slice(0, k)
  \<close>
\<close>

definition score_all :: "f64 list \<Rightarrow> item list \<Rightarrow> scored list" where
  "score_all embedding vs = map (\<lambda>v. (v, cosine (Some embedding) (item_embedding v))) vs"

definition memory_query :: "engine \<Rightarrow> item list \<Rightarrow> f64 list \<Rightarrow> int \<Rightarrow> scored list" where
  "memory_query engine vs embedding k = slice0 (js_sort engine snd (score_all embedding vs)) k"

text \<open>
  \<^verbatim>\<open>async function queryVectors(embedding, k = 3)\<close>: a missing \<open>k\<close> is \<open>3\<close>. The function assigns
  to no module variable; it returns the hits, and the model adds the calls it made.
\<close>

definition queryVectors ::
  "engine \<Rightarrow> server \<Rightarrow> f64 list option \<Rightarrow> int option \<Rightarrow> remote
   \<Rightarrow> hit list \<times> remote_call list" where
  "queryVectors engine st embedding kopt rem =
     (let k = (case kopt of None \<Rightarrow> 3 | Some k' \<Rightarrow> k')
      in case embedding of
           None \<Rightarrow> ([], [])
         | Some e \<Rightarrow>
             (case chroma_query st rem of
                (calls, Some out) \<Rightarrow> (out, calls)
              | (calls, None) \<Rightarrow>
                  (map (\<lambda>(v, s). MemoryHit v s) (memory_query engine (vectors st) e k),
                   calls)))"

section \<open>Listing and clearing\<close>

text \<open>
  The handler of \<^verbatim>\<open>GET /api/vector/list\<close>. From Chroma the items are rebuilt field by field,
  \<^verbatim>\<open>{ id: ids[i] || null, text: documents[i] || null, meta: metadatas[i] || null,
  embedding: embeddings[i] || null }\<close>; from memory they are the stored items themselves.
\<close>

datatype embedding_value = Vector "f64 list" | Number f64

record listed =
  listed_id :: "string option"
  listed_text :: "string option"
  listed_meta :: "meta option"
  listed_embedding :: "embedding_value option"

text \<open>\<^verbatim>\<open>(g.f && (Array.isArray(g.f[0]) ? g.f[0] : g.f)) || []\<close> for the ids, the documents
  and the metadata, whose elements are no arrays.\<close>

definition normalize :: "'a shape option \<Rightarrow> 'a list" where
  "normalize f =
     (case f of
        None \<Rightarrow> []
      | Some (Flat xs) \<Rightarrow> xs
      | Some (Nested xss) \<Rightarrow> (case xss of [] \<Rightarrow> [] | xs # _ \<Rightarrow> xs))"

text \<open>
  The same expression for \<^verbatim>\<open>g.embeddings\<close>. An embedding is an array itself, so
  \<^verbatim>\<open>Array.isArray(g.embeddings[0])\<close> holds of a flat array of embeddings too: the code then
  takes the first embedding for the list, and its numbers for the embeddings.
\<close>

definition normalize_embeddings :: "f64 list shape option \<Rightarrow> embedding_value list" where
  "normalize_embeddings f =
     (case f of
        None \<Rightarrow> []
      | Some (Flat es) \<Rightarrow> (case es of [] \<Rightarrow> [] | e # _ \<Rightarrow> map Number e)
      | Some (Nested ess) \<Rightarrow> (case ess of [] \<Rightarrow> [] | es # _ \<Rightarrow> map Vector es))"

definition truthy_string :: "string option \<Rightarrow> string option" where
  "truthy_string s = (case s of None \<Rightarrow> None | Some t \<Rightarrow> if t = [] then None else Some t)"

text \<open>\<^verbatim>\<open>embeddings[i] || null\<close>: an array is truthy; a number is, unless it is zero or \<^verbatim>\<open>NaN\<close>.\<close>

definition truthy_embedding :: "embedding_value option \<Rightarrow> embedding_value option" where
  "truthy_embedding x =
     (case x of
        None \<Rightarrow> None
      | Some (Vector v) \<Rightarrow> Some (Vector v)
      | Some (Number n) \<Rightarrow> if n = NaN \<or> is_zero n then None else Some (Number n))"

definition chroma_items :: "get_response \<Rightarrow> listed list" where
  "chroma_items g =
     (let ids = normalize (g_ids g); documents = normalize (g_documents g);
          metadatas = normalize (g_metadatas g); embeddings = normalize_embeddings (g_embeddings g)
      in map (\<lambda>i. \<lparr>listed_id = truthy_string (elem_at ids i),
                    listed_text = truthy_string (elem_at documents i),
                    listed_meta = elem_at metadatas i,
                    listed_embedding = truthy_embedding (elem_at embeddings i)\<rparr>)
           [0..<max (length ids) (length documents)])"

definition memory_item :: "item \<Rightarrow> listed" where
  "memory_item v =
     \<lparr>listed_id = Some (item_id v), listed_text = Some (item_text v),
      listed_meta = Some (item_meta v),
      listed_embedding = map_option Vector (item_embedding v)\<rparr>"

definition listVectors :: "server \<Rightarrow> remote \<Rightarrow> listed list \<times> remote_call list" where
  "listVectors st rem =
     (case chromaCollection st of
        None \<Rightarrow> (map memory_item (vectors st), [])
      | Some c \<Rightarrow>
          if has_get c then
            (case collection_get rem of
               Returns g \<Rightarrow> (chroma_items g, [CollectionGet])
             | Throws \<Rightarrow> (map memory_item (vectors st), [CollectionGet]))
          else (map memory_item (vectors st), []))"

text \<open>
  The handler of \<^verbatim>\<open>POST /api/vector/clear\<close>. Every path answers \<^verbatim>\<open>{ ok: true }\<close>: the remote
  calls are under the inner \<^verbatim>\<open>try\<close>, and nothing else in the handler can throw, so the
  answer \<^verbatim>\<open>500\<close> of the outer \<^verbatim>\<open>catch\<close> is never sent. When the \<^verbatim>\<open>try\<close> block does not
  return, \<^verbatim>\<open>vectorStore.vectors = []\<close> follows.
\<close>

datatype response = Ok_true | Internal_error

definition clear_memory :: "server \<Rightarrow> server" where
  "clear_memory st = st\<lparr>vectors := []\<rparr>"

text \<open>
  The \<^verbatim>\<open>try\<close> block of the handler: the first way of clearing that is found is the only one
  tried. \<open>Some st'\<close> is a \<^verbatim>\<open>return\<close> from inside the block, with the state it leaves;
  \<open>None\<close> is an exception caught, or no way found.
\<close>

definition chroma_clear :: "server \<Rightarrow> remote \<Rightarrow> remote_call list \<times> server option" where
  "chroma_clear st rem =
     (case chromaCollection st of
        None \<Rightarrow> ([], None)
      | Some c \<Rightarrow>
          if has_delete c then
            ([CollectionDelete],
             case collection_delete rem of Returns _ \<Rightarrow> Some st | Throws \<Rightarrow> None)
          else if has_clear c then
            ([CollectionClear],
             case collection_clear rem of Returns _ \<Rightarrow> Some st | Throws \<Rightarrow> None)
          else
            (case chromaClient st of
               None \<Rightarrow> ([], None)
             | Some cl \<Rightarrow>
                 if client_has_deleteCollection cl then
                   (case client_deleteCollection rem of
                      Throws \<Rightarrow> ([ClientDeleteCollection], None)
                    | Returns _ \<Rightarrow>
                        if client_has_createCollection cl then
                          ([ClientDeleteCollection, ClientCreateCollection],
                           case client_createCollection rem of
                             Throws \<Rightarrow> None
                           | Returns c' \<Rightarrow> Some (st\<lparr>chromaCollection := c'\<rparr>))
                        else ([ClientDeleteCollection], Some st))
                 else ([], None)))"

definition clearVectors :: "server \<Rightarrow> remote \<Rightarrow> response \<times> server \<times> remote_call list" where
  "clearVectors st rem =
     (case chroma_clear st rem of
        (calls, Some st') \<Rightarrow> (Ok_true, st', calls)
      | (calls, None) \<Rightarrow> (Ok_true, clear_memory st, calls))"

section \<open>Sequences of operations\<close>

text \<open>
  The four operations as requests, each served against what the remote service answers
  at that moment. A failed \<^verbatim>\<open>addVector\<close> leaves the state as it was.
\<close>

datatype request =
    Add add_request
  | Query "f64 list option" "int option"
  | List
  | Clear

definition step ::
  "engine \<Rightarrow> scope \<Rightarrow> server \<Rightarrow> request \<Rightarrow> remote \<Rightarrow> server \<times> remote_call list" where
  "step engine sc st rq rem =
     (case rq of
        Add req \<Rightarrow>
          (case addVector sc st req rem of
             Inl err \<Rightarrow> (st, [])
           | Inr (it, st', calls) \<Rightarrow> (st', calls))
      | Query embedding k \<Rightarrow> (st, snd (queryVectors engine st embedding k rem))
      | List \<Rightarrow> (st, snd (listVectors st rem))
      | Clear \<Rightarrow> (case clearVectors st rem of (r, st', calls) \<Rightarrow> (st', calls)))"

fun run ::
  "engine \<Rightarrow> scope \<Rightarrow> server \<Rightarrow> (request \<times> remote) list \<Rightarrow> server \<times> remote_call list" where
  "run engine sc st [] = (st, [])"
| "run engine sc st ((rq, rem) # rest) =
     (case step engine sc st rq rem of
        (st', calls) \<Rightarrow>
          (case run engine sc st' rest of (st'', calls') \<Rightarrow> (st'', calls @ calls')))"

text \<open>A remote service that fails every call.\<close>

definition unreachable :: remote where
  "unreachable =
     \<lparr>collection_add = Throws, collection_upsert = Throws, client_add = Throws,
      collection_query = Throws, client_query = Throws, collection_get = Throws,
      collection_delete = Throws, collection_clear = Throws,
      client_deleteCollection = Throws, client_createCollection = Throws,
      client_construct = Throws, client_getCollection = Throws\<rparr>"

text \<open>A remote service that answers every call: empty answers, a client and a collection
  with every method.\<close>

definition full_collection :: chroma_collection where
  "full_collection =
     \<lparr>has_add = True, has_upsert = True, has_query = True, has_get = True,
      has_delete = True, has_clear = True\<rparr>"

definition full_client :: chroma_client where
  "full_client =
     \<lparr>client_has_add = True, client_has_query = True, client_has_getCollection = True,
      client_has_createCollection = True, client_has_deleteCollection = True\<rparr>"

definition answering :: remote where
  "answering =
     \<lparr>collection_add = Returns (), collection_upsert = Returns (), client_add = Returns (),
      collection_query = Returns \<lparr>q_documents = None, q_ids = None, q_distances = None\<rparr>,
      client_query = Returns \<lparr>q_documents = None, q_ids = None, q_distances = None\<rparr>,
      collection_get =
        Returns \<lparr>g_ids = None, g_documents = None, g_metadatas = None, g_embeddings = None\<rparr>,
      collection_delete = Returns (), collection_clear = Returns (),
      client_deleteCollection = Returns (),
      client_createCollection = Returns (Some full_collection),
      client_construct = Returns full_client,
      client_getCollection = Returns (Some full_collection)\<rparr>"

text \<open>
  The remote clear has failed when the handler called the service and did not return from
  its \<^verbatim>\<open>try\<close> block.
\<close>

definition remote_clear_failed :: "server \<Rightarrow> remote \<Rightarrow> bool" where
  "remote_clear_failed st rem = (fst (chroma_clear st rem) \<noteq> [] \<and> snd (chroma_clear st rem) = None)"

text \<open>The three documents of the end-to-end example; two of them were stored while no
  embedding could be had.\<close>

definition cats :: item where
  "cats = \<lparr>item_id = ''1'', item_text = ''cats'', item_embedding = None, item_meta = []\<rparr>"

definition dogs :: item where
  "dogs = \<lparr>item_id = ''2'', item_text = ''dogs'', item_embedding = Some [one], item_meta = []\<rparr>"

definition rockets :: item where
  "rockets = \<lparr>item_id = ''3'', item_text = ''rockets'', item_embedding = None, item_meta = []\<rparr>"

definition memory_server :: "item list \<Rightarrow> server" where
  "memory_server vs =
     \<lparr>vectors = vs, store_kind = Memory, chromaClient = None, chromaCollection = None\<rparr>"

text \<open>The state after an initialisation that found its collection, with \<open>vs\<close> in memory.\<close>

definition chroma_server :: "item list \<Rightarrow> server" where
  "chroma_server vs =
     \<lparr>vectors = vs, store_kind = Chroma, chromaClient = Some full_client,
      chromaCollection = Some full_collection\<rparr>"

section \<open>The query on the heap\<close>

text \<open>
  \<^verbatim>\<open>sort\<close> works in place and objects are shared by reference, so what a query leaves of
  the store is a question about the heap. A cell is an object with the fields of an item
  and, when it has one, a \<^verbatim>\<open>score\<close>; or an array of references. Allocation takes the next
  free reference.
\<close>

type_synonym ref = nat

datatype cell = Object item "f64 option" | Array "ref list"

record heap =
  cells :: "ref \<rightharpoonup> cell"
  next_ref :: ref

definition alloc :: "cell \<Rightarrow> heap \<Rightarrow> ref \<times> heap" where
  "alloc c h = (next_ref h, h\<lparr>cells := (cells h)(next_ref h \<mapsto> c), next_ref := Suc (next_ref h)\<rparr>)"

text \<open>
  \<^verbatim>\<open>vectorStore.vectors.map(v => ({ ...v, score: cosine(embedding, v.embedding) }))\<close>, element by
  element: a new object with the fields of \<open>v\<close> and the score. A reference that holds no
  object does not occur in a store built by \<^verbatim>\<open>addVector\<close>; the model answers \<open>None\<close> there.
\<close>

fun map_scored :: "f64 list \<Rightarrow> ref list \<Rightarrow> heap \<Rightarrow> (ref list \<times> heap) option" where
  "map_scored embedding [] h = Some ([], h)"
| "map_scored embedding (r # rs) h =
     (case cells h r of
        Some (Object v old) \<Rightarrow>
          (case alloc (Object v (Some (cosine (Some embedding) (item_embedding v)))) h of
             (r', h') \<Rightarrow>
               (case map_scored embedding rs h' of
                  None \<Rightarrow> None
                | Some (rs', h'') \<Rightarrow> Some (r' # rs', h'')))
      | _ \<Rightarrow> None)"

text \<open>\<^verbatim>\<open>x.score\<close> of the object behind a reference; a missing field is \<^verbatim>\<open>undefined\<close>,
  which arithmetic turns into \<^verbatim>\<open>NaN\<close>.\<close>

definition score_at :: "heap \<Rightarrow> ref \<Rightarrow> f64" where
  "score_at h r = (case cells h r of Some (Object v (Some s)) \<Rightarrow> s | _ \<Rightarrow> NaN)"

text \<open>
  Lines 220 to 222 on the heap: \<open>vectors_ref\<close> is the array \<^verbatim>\<open>vectorStore.vectors\<close>. The
  mapped array is new, \<^verbatim>\<open>sort\<close> overwrites it where it is, and \<^verbatim>\<open>slice\<close> allocates the
  array that is returned.
\<close>

definition heap_query ::
  "engine \<Rightarrow> heap \<Rightarrow> ref \<Rightarrow> f64 list \<Rightarrow> int \<Rightarrow> (ref \<times> heap) option" where
  "heap_query engine h vectors_ref embedding k =
     (case cells h vectors_ref of
        Some (Array rs) \<Rightarrow>
          (case map_scored embedding rs h of
             None \<Rightarrow> None
           | Some (rs', h1) \<Rightarrow>
               (case alloc (Array rs') h1 of
                  (scored, h2) \<Rightarrow>
                    let sorted = js_sort engine (score_at h2) rs';
                        h3 = h2\<lparr>cells := (cells h2)(scored \<mapsto> Array sorted)\<rparr>
                    in Some (alloc (Array (slice0 sorted k)) h3)))
      | _ \<Rightarrow> None)"

text \<open>What a reference holds: a stored item (no score), or a hit (an item with its score).\<close>

definition item_of :: "heap \<Rightarrow> ref \<Rightarrow> item option" where
  "item_of h r = (case cells h r of Some (Object v None) \<Rightarrow> Some v | _ \<Rightarrow> None)"

definition hit_of :: "heap \<Rightarrow> ref \<Rightarrow> scored option" where
  "hit_of h r = (case cells h r of Some (Object v (Some s)) \<Rightarrow> Some (v, s) | _ \<Rightarrow> None)"

text \<open>
  A heap holds the store \<open>vs\<close> at \<open>vectors_ref\<close> when that reference is an array of references
  to these items, in this order, and nothing is allocated at or above \<open>next_ref\<close>. An array
  \<open>a\<close> holds the hits \<open>xs\<close> likewise.
\<close>

definition holds_store :: "heap \<Rightarrow> ref \<Rightarrow> item list \<Rightarrow> bool" where
  "holds_store h vectors_ref vs =
     ((case cells h vectors_ref of
         Some (Array rs) \<Rightarrow> map (item_of h) rs = map Some vs
       | _ \<Rightarrow> False)
      \<and> (\<forall>a. next_ref h \<le> a \<longrightarrow> cells h a = None))"

definition holds_hits :: "heap \<Rightarrow> ref \<Rightarrow> scored list \<Rightarrow> bool" where
  "holds_hits h a xs =
     (case cells h a of
        Some (Array rs) \<Rightarrow> map (hit_of h) rs = map Some xs
      | _ \<Rightarrow> False)"

section \<open>Notions the properties are stated with\<close>

text \<open>Descending scores, by \<^verbatim>\<open>>=\<close>; the elements whose score equals \<open>s\<close>, by \<^verbatim>\<open>==\<close>.\<close>

definition desc :: "scored list \<Rightarrow> bool" where
  "desc xs = sorted_wrt (\<lambda>a b. f64_ge (snd a) (snd b)) xs"

definition tie :: "f64 \<Rightarrow> scored \<Rightarrow> bool" where
  "tie s a = f64_eq (snd a) s"

text \<open>The ids of a store in which every id was assigned by the store: \<open>1\<close>, \<open>2\<close>, ...\<close>

definition store_assigned :: "item list \<Rightarrow> bool" where
  "store_assigned vs = (map item_id vs = map (\<lambda>i. toString (i + 1)) [0..<length vs])"

text \<open>The number a finite value stands for; the lower bound of the exponents.\<close>

definition val :: "f64 \<Rightarrow> rat" where
  "val x = (case x of Fin s m e \<Rightarrow> of_int (signed s m) * power_int 2 e | _ \<Rightarrow> 0)"

fun expo_ok :: "f64 \<Rightarrow> bool" where
  "expo_ok (Fin s m e) = (- 1074 \<le> e)"
| "expo_ok x = True"

definition ranked :: "('a \<Rightarrow> f64) \<Rightarrow> 'a \<Rightarrow> bool" where
  "ranked score a = (score a \<noteq> NaN \<and> expo_ok (score a))"

section \<open>Facts about the numbers\<close>

lemma isqrt_aux_numeral:
  "isqrt_aux n r (numeral k) =
     (let c = r + 2 ^ pred_numeral k
      in isqrt_aux n (if c * c \<le> n then c else r) (pred_numeral k))"
  by (simp add: numeral_eq_Suc)

lemma Let_Suc_0: "Let (Suc 0) f = f (Suc 0)"
  by simp

text \<open>
  The rules that evaluate the arithmetic on literals. They are used with the congruence
  rule \<open>let_weak_cong\<close>, so that a \<open>let\<close> is unfolded once its value is a literal.
\<close>

lemmas f64_eval = cosine_def round_f64_def ilog2_ratio_def bitlen.simps isqrt_def
  isqrt_aux_numeral signed_def zero_def one_def minus_one_def Let_Suc_0 fsub_def before_def

lemma sign_xor_commute: "(s \<noteq> t) = (t \<noteq> (s::bool))"
  by auto

lemma fmul_commute: "fmul x y = fmul y x"
proof (cases x; cases y)
  fix s1 m1 e1 s2 m2 e2
  assume "x = Fin s1 m1 e1" "y = Fin s2 m2 e2"
  then show ?thesis
    by (simp only: fmul.simps mult.commute [of m1 m2] add.commute [of e1 e2]
        sign_xor_commute [of s1 s2])
qed (auto simp: sign_xor_commute)

lemma cosine_loop_swap:
  "length xs = length ys \<Longrightarrow>
   cosine_loop ys xs (d, nb, na) =
     (case cosine_loop xs ys (d, na, nb) of (d', na', nb') \<Rightarrow> (d', nb', na'))"
proof (induction xs ys "(d, na, nb)" arbitrary: d na nb rule: cosine_loop.induct)
  case (1 x xs y ys dot na nb)
  then show ?case by (simp add: fmul_commute)
qed simp_all

lemma cosine_commute: "cosine a b = cosine b a"
proof (cases a)
  case None
  then show ?thesis by (simp add: cosine_def split: option.splits)
next
  case (Some xs)
  note a = this
  show ?thesis
  proof (cases b)
    case None
    then show ?thesis by (simp add: cosine_def split: option.splits)
  next
    case (Some ys)
    show ?thesis
    proof (cases "length xs = length ys")
      case True
      obtain d na nb where l: "cosine_loop xs ys (zero, zero, zero) = (d, na, nb)"
        by (cases "cosine_loop xs ys (zero, zero, zero)") auto
      have "cosine_loop ys xs (zero, zero, zero) = (d, nb, na)"
        using cosine_loop_swap [OF True, of zero zero zero] l by simp
      with l a Some True show ?thesis
        by (simp add: cosine_def fmul_commute)
    next
      case False
      with a Some show ?thesis by (auto simp: cosine_def)
    qed
  qed
qed

lemma cosine_loop_self: "\<exists>s. cosine_loop xs xs (a, a, a) = (s, s, s)"
  by (induction xs arbitrary: a) auto

lemma ilog2_ratio_self: "0 < m \<Longrightarrow> ilog2_ratio m m = 0"
  by (simp add: ilog2_ratio_def)

lemma fdiv_self: "0 < m \<Longrightarrow> fdiv (Fin s m e) (Fin s m e) = one"
  by (simp add: round_f64_def ilog2_ratio_self one_def)

lemma bitlen_pos: "0 < a \<Longrightarrow> 1 \<le> bitlen a"
proof (induction a rule: bitlen.induct)
  case (1 n)
  show ?case
  proof (cases "n div 2 = 0")
    case True
    with 1 show ?thesis by (simp add: bitlen.simps [of n] bitlen.simps [of 0])
  next
    case False
    with 1 show ?thesis by (simp add: bitlen.simps [of n])
  qed
qed

lemma bitlen_lower: "0 < a \<Longrightarrow> 2 ^ nat (bitlen a - 1) \<le> a"
proof (induction a rule: bitlen.induct)
  case (1 n)
  show ?case
  proof (cases "n div 2 = 0")
    case True
    with 1 show ?thesis by (simp add: bitlen.simps [of n] bitlen.simps [of 0])
  next
    case False
    then have p: "0 < n div 2" by simp
    have ih: "2 ^ nat (bitlen (n div 2) - 1) \<le> n div 2"
      using 1 p by simp
    have b: "1 \<le> bitlen (n div 2)" using bitlen_pos [OF p] .
    have "bitlen n = 1 + bitlen (n div 2)" using 1(2) by (simp add: bitlen.simps [of n])
    then have "nat (bitlen n - 1) = Suc (nat (bitlen (n div 2) - 1))"
      using b by simp
    then have "(2::nat) ^ nat (bitlen n - 1) = 2 * 2 ^ nat (bitlen (n div 2) - 1)"
      by simp
    also have "\<dots> \<le> 2 * (n div 2)" using ih by simp
    also have "\<dots> \<le> n" by simp
    finally show ?thesis .
  qed
qed

lemma bitlen_Suc_0: "bitlen (Suc 0) = 1"
  by (simp add: bitlen.simps [of "Suc 0"] bitlen.simps [of 0])

lemma ilog2_ratio_one: "0 < a \<Longrightarrow> ilog2_ratio a 1 = bitlen a - 1"
  using bitlen_lower [of a] bitlen_pos [of a]
  by (simp add: ilog2_ratio_def bitlen_Suc_0 Let_def)

text \<open>Rounding a non-zero multiple of the smallest subnormal keeps its sign.\<close>

lemma round_f64_sign:
  assumes "0 < a" "- 1074 \<le> e"
  shows "is_neg (round_f64 s a 1 e) = s"
proof -
  define L where "L = bitlen a - 1"
  have L: "ilog2_ratio a 1 = L" "0 \<le> L" "2 ^ nat L \<le> a"
    using ilog2_ratio_one [OF assms(1)] bitlen_pos [OF assms(1)] bitlen_lower [OF assms(1)]
    by (simp_all add: L_def)
  define E where "E = max (e + L - 52) (- 1074)"
  have q2: "0 < a div 2 ^ nat (E - e)" if "\<not> E \<le> e"
  proof -
    from that have "E = e + L - 52" "nat (E - e) \<le> nat L"
      using assms(2) by (auto simp: E_def)
    then have "(2::nat) ^ nat (E - e) \<le> 2 ^ nat L"
      by (intro power_increasing) auto
    with L(3) have "2 ^ nat (E - e) \<le> a" by linarith
    then show ?thesis by (simp add: div_greater_zero_iff)
  qed
  show ?thesis
    using assms(1) q2
    unfolding round_f64_def L(1) Let_def E_def [symmetric]
    by auto
qed

lemma expo_ok_round: "expo_ok (round_f64 s a b e)"
proof -
  define E where "E = max (e + ilog2_ratio a b - 52) (- 1074)"
  have "- 1074 \<le> E" by (simp add: E_def)
  then show ?thesis
    unfolding round_f64_def Let_def E_def [symmetric]
    by auto
qed

lemma expo_ok_fdiv: "expo_ok (fdiv x y)"
  by (cases x; cases y) (auto simp: expo_ok_round)

lemma expo_ok_cosine: "expo_ok (cosine a b)"
  by (auto simp: cosine_def minus_one_def expo_ok_fdiv split: option.splits prod.splits)

lemma signed_neg: "signed (\<not> s) n = - signed s n"
  by (simp add: signed_def)

lemma signed_sign: "0 < n \<Longrightarrow> (signed s n < 0) = s" "0 < n \<Longrightarrow> (0 < signed s n) = (\<not> s)"
  by (auto simp: signed_def)

text \<open>The sign of \<^verbatim>\<open>x - y\<close> tells which of the two is smaller.\<close>

lemma fsub_sign:
  assumes "expo_ok x" "expo_ok y"
  shows "is_neg (fsub x y) = f64_lt x y"
proof (cases x; cases y)
  fix s1 m1 e1 s2 m2 e2
  assume x: "x = Fin s1 m1 e1" and y: "y = Fin s2 m2 e2"
  have e: "- 1074 \<le> min e1 e2" using assms x y by simp
  define i1 where "i1 = signed s1 (m1 * 2 ^ nat (e1 - min e1 e2))"
  define i2 where "i2 = signed s2 (m2 * 2 ^ nat (e2 - min e1 e2))"
  have lt: "f64_lt x y = (i1 < i2)"
    by (simp add: x y i1_def i2_def Let_def)
  consider (zz) "m1 = 0" "m2 = 0" | (zl) "m1 = 0" "m2 \<noteq> 0" | (zr) "m1 \<noteq> 0" "m2 = 0"
    | (nn) "m1 \<noteq> 0" "m2 \<noteq> 0" by blast
  then show ?thesis
  proof cases
    case zz
    then show ?thesis by (simp add: x y fsub_def signed_def)
  next
    case zl
    then have "0 < m2 * 2 ^ nat (e2 - min e1 e2)" by simp
    then have "(0 < i2) = (\<not> s2)" unfolding i2_def by (rule signed_sign(2))
    moreover have "i1 = 0" using zl by (simp add: i1_def signed_def)
    ultimately show ?thesis using zl lt by (simp add: x y fsub_def)
  next
    case zr
    then have "0 < m1 * 2 ^ nat (e1 - min e1 e2)" by simp
    then have "(i1 < 0) = s1" unfolding i1_def by (rule signed_sign(1))
    moreover have "i2 = 0" using zr by (simp add: i2_def signed_def)
    ultimately show ?thesis using zr lt by (simp add: x y fsub_def)
  next
    case nn
    have r: "fsub x y = (if i1 - i2 = 0 then Fin False 0 (- 1074)
              else round_f64 (i1 - i2 < 0) (nat \<bar>i1 - i2\<bar>) 1 (min e1 e2))"
      using nn by (simp add: x y fsub_def Let_def signed_neg i1_def i2_def)
    show ?thesis
    proof (cases "i1 - i2 = 0")
      case True
      then show ?thesis using r lt by simp
    next
      case False
      then have "0 < nat \<bar>i1 - i2\<bar>" by simp
      from round_f64_sign [OF this e, of "i1 - i2 < 0"] r False lt show ?thesis by simp
    qed
  qed
qed (auto simp: fsub_def)

lemma before_iff: "expo_ok a \<Longrightarrow> expo_ok b \<Longrightarrow> before a b = f64_lt b a"
  by (simp add: before_def fsub_sign)

text \<open>The order of the finite values is the order of the numbers they stand for.\<close>

lemma val_aligned:
  assumes "e \<le> e1"
  shows "val (Fin s m e1) = of_int (signed s (m * 2 ^ nat (e1 - e))) * power_int 2 e"
proof -
  have "power_int (2::rat) e1 = power_int 2 ((e1 - e) + e)" by simp
  also have "\<dots> = power_int 2 (e1 - e) * power_int 2 e"
    by (rule power_int_add) simp
  also have "power_int (2::rat) (e1 - e) = 2 ^ nat (e1 - e)"
    using assms by (simp add: power_int_def)
  finally show ?thesis
    by (simp add: val_def signed_def)
qed

lemma f64_lt_Fin_raw:
  "f64_lt (Fin s1 m1 e1) (Fin s2 m2 e2) =
     (let e = min e1 e2
      in signed s1 (m1 * 2 ^ nat (e1 - e)) < signed s2 (m2 * 2 ^ nat (e2 - e)))"
  by simp

lemma f64_lt_Fin:
  "f64_lt (Fin s1 m1 e1) (Fin s2 m2 e2) = (val (Fin s1 m1 e1) < val (Fin s2 m2 e2))"
proof -
  have p: "0 < power_int (2::rat) (min e1 e2)" by simp
  have a: "val (Fin s1 m1 e1) =
      of_int (signed s1 (m1 * 2 ^ nat (e1 - min e1 e2))) * power_int 2 (min e1 e2)"
    by (rule val_aligned) simp
  have b: "val (Fin s2 m2 e2) =
      of_int (signed s2 (m2 * 2 ^ nat (e2 - min e1 e2))) * power_int 2 (min e1 e2)"
    by (rule val_aligned) simp
  show ?thesis
    unfolding a b f64_lt_Fin_raw Let_def
    using p by (simp only: mult_less_cancel_right_pos of_int_less_iff)
qed

lemma f64_lt_asym: "f64_lt x y \<Longrightarrow> \<not> f64_lt y x"
  by (cases x; cases y) (auto simp add: f64_lt_Fin simp del: f64_lt_Fin_raw)

lemma f64_lt_negtrans:
  "y \<noteq> NaN \<Longrightarrow> \<not> f64_lt x y \<Longrightarrow> \<not> f64_lt y z \<Longrightarrow> \<not> f64_lt x z"
  by (cases x; cases y; cases z) (auto simp add: f64_lt_Fin simp del: f64_lt_Fin_raw)

section \<open>Vectors of zero norm\<close>

lemma fmul_zero_left: "is_zero x \<Longrightarrow> zero_or_nan (fmul x y)"
  by (cases x; cases y) (auto simp: zero_or_nan_def round_f64_def)

lemma fmul_zero_both: "is_zero x \<Longrightarrow> is_zero (fmul x x)"
  by (cases x) (auto simp: round_f64_def)

lemma fadd_zero_or_nan: "zero_or_nan x \<Longrightarrow> zero_or_nan y \<Longrightarrow> zero_or_nan (fadd x y)"
  by (cases x; cases y) (auto simp: zero_or_nan_def)

lemma fadd_is_zero: "is_zero x \<Longrightarrow> is_zero y \<Longrightarrow> is_zero (fadd x y)"
  by (cases x; cases y) auto

lemma fsqrt_is_zero: "is_zero x \<Longrightarrow> is_zero (fsqrt x)"
  by (cases x) auto

lemma fdiv_zero_or_nan: "zero_or_nan x \<Longrightarrow> zero_or_nan y \<Longrightarrow> fdiv x y = NaN"
  by (cases x; cases y) (auto simp: zero_or_nan_def)

lemma cosine_loop_zero:
  "list_all is_zero xs \<Longrightarrow> length xs = length ys \<Longrightarrow> zero_or_nan d \<Longrightarrow> is_zero na \<Longrightarrow>
   (case cosine_loop xs ys (d, na, nb) of (d', na', nb') \<Rightarrow> zero_or_nan d' \<and> is_zero na')"
proof (induction xs ys "(d, na, nb)" arbitrary: d na nb rule: cosine_loop.induct)
  case (1 x xs y ys dot na nb)
  then show ?case
    by (simp add: fadd_zero_or_nan fmul_zero_left fadd_is_zero fmul_zero_both)
qed simp_all

lemma cosine_zero_left:
  assumes "list_all is_zero xs" "length xs = length ys"
  shows "cosine (Some xs) (Some ys) = NaN"
proof -
  obtain d na nb where l: "cosine_loop xs ys (zero, zero, zero) = (d, na, nb)"
    by (cases "cosine_loop xs ys (zero, zero, zero)") auto
  have "zero_or_nan d \<and> is_zero na"
    using cosine_loop_zero [OF assms, of zero zero zero] l
    by (simp add: zero_def zero_or_nan_def)
  then have "zero_or_nan d" "zero_or_nan (fmul (fsqrt na) (fsqrt nb))"
    by (simp_all add: fmul_zero_left fsqrt_is_zero)
  then have "fdiv d (fmul (fsqrt na) (fsqrt nb)) = NaN"
    by (rule fdiv_zero_or_nan)
  with l assms(2) show ?thesis by (simp add: cosine_def)
qed

text \<open>
  C3, as the code has it: when one of two vectors of the same length is a zero vector (so
  its norm is zero), \<open>cosine\<close> returns \<^verbatim>\<open>NaN\<close>, whatever the other vector is. Nothing maps
  the \<^verbatim>\<open>NaN\<close> to \<open>-1\<close>.
\<close>

theorem cosine_zero_norm:
  "list_all is_zero xs \<Longrightarrow> length xs = length ys \<Longrightarrow>
   cosine (Some xs) (Some ys) = NaN \<and> cosine (Some ys) (Some xs) = NaN"
  using cosine_zero_left [of xs ys] cosine_commute [of "Some ys" "Some xs"] by simp

theorem cosine_zero_norm_witness:
  "list_all is_zero [zero, Fin True 0 (- 1074)] \<and> length [zero, Fin True 0 (- 1074)] = length [one, minus_one]
   \<and> cosine (Some [zero, Fin True 0 (- 1074)]) (Some [one, minus_one]) = NaN
   \<and> cosine (Some [one, minus_one]) (Some [zero, Fin True 0 (- 1074)]) = NaN"
  using cosine_zero_norm [of "[zero, Fin True 0 (- 1074)]" "[one, minus_one]"]
  by (simp add: zero_def)

text \<open>
  The claim C3 fails at the score of \<^verbatim>\<open>[0]\<close> against \<^verbatim>\<open>[1]\<close>: it is \<^verbatim>\<open>NaN\<close>, not \<open>-1\<close>, and
  the query puts it into the ranking as it is.
\<close>

theorem cosine_zero_norm_counterexample:
  "cosine (Some [zero]) (Some [one]) = NaN
   \<and> cosine (Some [zero]) (Some [one]) \<noteq> minus_one
   \<and> (\<forall>engine. queryVectors engine
       \<lparr>vectors = [\<lparr>item_id = ''1'', item_text = ''a'', item_embedding = Some [zero], item_meta = []\<rparr>],
        store_kind = Memory, chromaClient = None, chromaCollection = None\<rparr>
       (Some [one]) None unreachable
     = ([MemoryHit \<lparr>item_id = ''1'', item_text = ''a'', item_embedding = Some [zero], item_meta = []\<rparr> NaN], []))"
proof -
  have c: "cosine (Some [one]) (Some [zero]) = NaN"
    using cosine_zero_left [of "[zero]" "[one]"] cosine_commute [of "Some [one]" "Some [zero]"]
    by (simp add: zero_def)
  then have "cosine (Some [zero]) (Some [one]) = NaN"
    by (simp add: cosine_commute [of "Some [zero]"])
  with c show ?thesis
    by (simp add: minus_one_def queryVectors_def chroma_query_def memory_query_def
        score_all_def slice0_def js_sort_def consistent_def before_def fsub_def)
qed

section \<open>The scorer on absent and mismatched input\<close>

text \<open>
  C4, as the code has it: when either embedding is absent or the two lengths differ,
  \<open>cosine\<close> returns \<open>-1\<close>; it is a total function, no input makes it raise. (That \<open>-1\<close> is
  below every score of two present vectors is left out: it is not so.)
\<close>

theorem cosine_sentinel:
  "a = None \<or> b = None \<or> (\<exists>xs ys. a = Some xs \<and> b = Some ys \<and> length xs \<noteq> length ys)
   \<Longrightarrow> cosine a b = minus_one"
  by (auto simp: cosine_def split: option.splits)

theorem cosine_sentinel_witness:
  "cosine None (Some [one]) = minus_one
   \<and> cosine (Some [one, zero]) (Some [one, zero, zero]) = minus_one"
  using cosine_sentinel [of None "Some [one]"]
    cosine_sentinel [of "Some [one, zero]" "Some [one, zero, zero]"]
  by simp

text \<open>
  The claim C4 calls \<open>-1\<close> lower than any valid similarity. The score of \<^verbatim>\<open>[1]\<close> against
  \<^verbatim>\<open>[-1]\<close> is \<open>-1\<close> itself, and the score of \<^verbatim>\<open>[1,1,1]\<close> against \<^verbatim>\<open>[-1,-1,-1]\<close> is
  \<open>-1.0000000000000002\<close>, below it.
\<close>

theorem cosine_sentinel_counterexample:
  "cosine (Some [one]) (Some [minus_one]) = minus_one
   \<and> \<not> f64_lt minus_one (cosine (Some [one]) (Some [minus_one]))
   \<and> cosine (Some [one, one, one]) (Some [minus_one, minus_one, minus_one])
       = Fin True 4503599627370497 (- 52)
   \<and> f64_lt (cosine (Some [one, one, one]) (Some [minus_one, minus_one, minus_one])) minus_one"
proof -
  have a: "cosine (Some [one]) (Some [minus_one]) = minus_one"
    by (simp add: f64_eval cong: let_weak_cong)
  have b: "cosine (Some [one, one, one]) (Some [minus_one, minus_one, minus_one])
      = Fin True 4503599627370497 (- 52)"
    by (simp add: f64_eval cong: let_weak_cong)
  show ?thesis
    unfolding a b by (simp add: minus_one_def signed_def)
qed

section \<open>Symmetry and the score of a vector against itself\<close>

text \<open>
  C5, as the code has it: \<open>cosine\<close> is symmetric, \<^verbatim>\<open>NaN\<close> included. Against itself a vector
  scores \<open>s / (sqrt s * sqrt s)\<close> in floating point, where \<open>s\<close> is the sum of squares the
  loop has computed; that is \<open>1\<close> when \<open>s\<close> is finite, not zero, and the product of the
  rounded roots gives \<open>s\<close> back.
\<close>

theorem cosine_symmetric_self:
  "cosine a b = cosine b a
   \<and> (\<exists>s. cosine_loop xs xs (zero, zero, zero) = (s, s, s)
          \<and> cosine (Some xs) (Some xs) = fdiv s (fmul (fsqrt s) (fsqrt s))
          \<and> ((\<exists>m e. s = Fin False m e \<and> 0 < m) \<and> fmul (fsqrt s) (fsqrt s) = s
               \<longrightarrow> cosine (Some xs) (Some xs) = one))"
proof -
  obtain s where s: "cosine_loop xs xs (zero, zero, zero) = (s, s, s)"
    using cosine_loop_self [of xs zero] by blast
  then have c: "cosine (Some xs) (Some xs) = fdiv s (fmul (fsqrt s) (fsqrt s))"
    by (simp add: cosine_def)
  have "cosine (Some xs) (Some xs) = one"
    if "\<exists>m e. s = Fin False m e \<and> 0 < m" "fmul (fsqrt s) (fsqrt s) = s"
  proof -
    from that(1) obtain m e where m: "s = Fin False m e" "0 < m" by blast
    have "cosine (Some xs) (Some xs) = fdiv s s" using c that(2) by simp
    then show ?thesis using fdiv_self [OF m(2), of False e] m(1) by simp
  qed
  with s c cosine_commute [of a b] show ?thesis by blast
qed

theorem cosine_symmetric_self_witness:
  "cosine (Some [one, zero]) (Some [zero, minus_one]) = cosine (Some [zero, minus_one]) (Some [one, zero])
   \<and> cosine_loop [one] [one] (zero, zero, zero) = (one, one, one)
   \<and> fmul (fsqrt one) (fsqrt one) = one
   \<and> cosine (Some [one]) (Some [one]) = one"
proof -
  have l: "cosine_loop [one] [one] (zero, zero, zero) = (one, one, one)"
    by (simp add: f64_eval cong: let_weak_cong)
  have r: "fmul (fsqrt one) (fsqrt one) = one"
    by (simp add: f64_eval cong: let_weak_cong)
  from cosine_symmetric_self [of "Some [one, zero]" "Some [zero, minus_one]" "[one]"] l r
  show ?thesis by (auto simp: one_def)
qed

text \<open>
  The claim C5 fails at \<^verbatim>\<open>[1, 1]\<close>: the sum of squares is \<open>2\<close>, the rounded root of \<open>2\<close>
  squared is \<open>2.0000000000000004\<close>, and the score is \<open>0.9999999999999998\<close>.
\<close>

theorem cosine_self_counterexample:
  "cosine (Some [one, one]) (Some [one, one]) = Fin False 9007199254740990 (- 53)
   \<and> cosine (Some [one, one]) (Some [one, one]) \<noteq> one"
proof -
  have a: "cosine (Some [one, one]) (Some [one, one]) = Fin False 9007199254740990 (- 53)"
    by (simp add: f64_eval cong: let_weak_cong)
  show ?thesis unfolding a by (simp add: one_def)
qed
section \<open>The ranking of the in-memory query\<close>

lemma mset_sort_insert: "mset (sort_insert f x ys) = add_mset x (mset ys)"
  by (induction ys) auto

lemma mset_stable_sort: "mset (stable_sort f xs) = mset xs"
  by (induction xs) (auto simp: mset_sort_insert)

lemma set_sort_insert: "set (sort_insert f x ys) = insert x (set ys)"
  using mset_sort_insert [of f x ys] by (metis set_mset_add_mset_insert set_mset_mset)

lemma set_stable_sort: "set (stable_sort f xs) = set xs"
  using mset_stable_sort [of f xs] by (metis set_mset_mset)

lemma length_stable_sort: "length (stable_sort f xs) = length xs"
  using mset_stable_sort [of f xs] by (metis size_mset)

lemma ge_of_lt: "ranked snd a \<Longrightarrow> ranked snd b \<Longrightarrow> f64_lt (snd b) (snd a) \<Longrightarrow> f64_ge (snd a) (snd b)"
  by (auto simp: f64_ge_def ranked_def dest: f64_lt_asym)

lemma ge_trans_step:
  "ranked snd x \<Longrightarrow> ranked snd y \<Longrightarrow> ranked snd z \<Longrightarrow> \<not> f64_lt (snd x) (snd y)
   \<Longrightarrow> f64_ge (snd y) (snd z) \<Longrightarrow> f64_ge (snd x) (snd z)"
  by (auto simp: f64_ge_def ranked_def dest: f64_lt_negtrans)

lemma desc_sort_insert:
  assumes "ranked snd x" "\<forall>y \<in> set ys. ranked snd y" "desc ys"
  shows "desc (sort_insert snd x ys)"
  using assms(2,3)
proof (induction ys)
  case Nil
  then show ?case by (simp add: desc_def)
next
  case (Cons y ys)
  have gy: "ranked snd y" and gys: "\<forall>z \<in> set ys. ranked snd z" using Cons.prems(1) by simp_all
  have dys: "desc ys" and yge: "\<forall>z \<in> set ys. f64_ge (snd y) (snd z)"
    using Cons.prems(2) by (simp_all add: desc_def)
  have b: "before (snd y) (snd x) = f64_lt (snd x) (snd y)"
    using assms(1) gy by (simp add: before_iff ranked_def)
  show ?case
  proof (cases "before (snd y) (snd x)")
    case True
    have "f64_ge (snd y) (snd x)" using True b ge_of_lt [OF gy assms(1)] by simp
    moreover have "desc (sort_insert snd x ys)" using Cons.IH [OF gys dys] .
    ultimately show ?thesis using True yge
      by (simp add: desc_def set_sort_insert)
  next
    case False
    then have nlt: "\<not> f64_lt (snd x) (snd y)" using b by simp
    have "f64_ge (snd x) (snd y)" using nlt assms(1) gy by (simp add: f64_ge_def ranked_def)
    moreover have "\<forall>z \<in> set ys. f64_ge (snd x) (snd z)"
      using ge_trans_step [OF assms(1) gy _ nlt] gys yge by blast
    ultimately show ?thesis using False Cons.prems(2)
      by (simp add: desc_def)
  qed
qed

lemma desc_stable_sort: "\<forall>x \<in> set xs. ranked snd x \<Longrightarrow> desc (stable_sort snd xs)"
proof (induction xs)
  case Nil
  then show ?case by (simp add: desc_def)
next
  case (Cons x xs)
  then show ?case
    by (simp add: desc_sort_insert set_stable_sort)
qed

lemma tie_not_lt: "tie s a \<Longrightarrow> tie s b \<Longrightarrow> \<not> f64_lt (snd a) (snd b)"
  unfolding tie_def f64_eq_def
  using f64_lt_negtrans [of s "snd a" "snd b"] by blast

lemma filter_sort_insert:
  assumes "ranked snd x" "\<forall>y \<in> set ys. ranked snd y"
  shows "filter (tie s) (sort_insert snd x ys) = filter (tie s) (x # ys)"
  using assms(2)
proof (induction ys)
  case Nil
  then show ?case by simp
next
  case (Cons y ys)
  have gy: "ranked snd y" using Cons.prems by simp
  have b: "before (snd y) (snd x) = f64_lt (snd x) (snd y)"
    using assms(1) gy by (simp add: before_iff ranked_def)
  show ?case
  proof (cases "before (snd y) (snd x)")
    case True
    then have "\<not> (tie s x \<and> tie s y)" using b tie_not_lt [of s x y] by auto
    then show ?thesis using True Cons by auto
  next
    case False
    then show ?thesis by simp
  qed
qed

lemma filter_stable_sort:
  "\<forall>x \<in> set xs. ranked snd x \<Longrightarrow> filter (tie s) (stable_sort snd xs) = filter (tie s) xs"
proof (induction xs)
  case Nil
  then show ?case by simp
next
  case (Cons x xs)
  then show ?case
    by (simp add: filter_sort_insert set_stable_sort)
qed

lemma ranked_score_all:
  "\<forall>v \<in> set vs. cosine (Some e) (item_embedding v) \<noteq> NaN
   \<Longrightarrow> \<forall>x \<in> set (score_all e vs). ranked snd x"
  by (auto simp: score_all_def ranked_def expo_ok_cosine)

lemma js_sort_ranked:
  "\<forall>x \<in> set xs. ranked f x \<Longrightarrow> js_sort engine f xs = stable_sort f xs"
  by (simp add: js_sort_def consistent_def ranked_def list_all_iff)

lemma queryVectors_memory:
  "chromaCollection st = None \<Longrightarrow>
   queryVectors engine st (Some e) kopt rem =
     (map (\<lambda>(v, s). MemoryHit v s)
        (memory_query engine (vectors st) e (case kopt of None \<Rightarrow> 3 | Some k \<Rightarrow> k)), [])"
  by (simp add: queryVectors_def chroma_query_def)

text \<open>
  C2, as the code has it: with the Fallback Backend, a query embedding, a \<open>k\<close> that is not
  negative, and no score that is \<^verbatim>\<open>NaN\<close>, \<open>queryVectors\<close> returns, in every engine, the first \<open>k\<close> elements of a
  list \<open>full\<close> which holds every stored record with its score, each once, in descending
  order of score, the records of equal score in the order of the store.
\<close>

theorem queryVectors_ranking:
  assumes "chromaCollection st = None"
    and "0 \<le> k"
    and "\<forall>v \<in> set (vectors st). cosine (Some e) (item_embedding v) \<noteq> NaN"
  shows "\<exists>full.
     queryVectors engine st (Some e) (Some k) rem = (map (\<lambda>(v, s). MemoryHit v s) (take (nat k) full), [])
     \<and> mset full = mset (map (\<lambda>v. (v, cosine (Some e) (item_embedding v))) (vectors st))
     \<and> desc full
     \<and> (\<forall>s. filter (tie s) full
            = filter (tie s) (map (\<lambda>v. (v, cosine (Some e) (item_embedding v))) (vectors st)))
     \<and> length (fst (queryVectors engine st (Some e) (Some k) rem)) = min (nat k) (length (vectors st))"
proof -
  define full where "full = stable_sort snd (score_all e (vectors st))"
  have j: "js_sort engine snd (score_all e (vectors st)) = full"
    using assms(3) by (simp add: full_def js_sort_ranked ranked_score_all)
  have r: "\<forall>x \<in> set (score_all e (vectors st)). ranked snd x"
    using assms(3) by (rule ranked_score_all)
  have q: "queryVectors engine st (Some e) (Some k) rem
      = (map (\<lambda>(v, s). MemoryHit v s) (take (nat k) full), [])"
    using assms(1,2) j by (simp add: queryVectors_memory memory_query_def slice0_def)
  have m: "mset full = mset (map (\<lambda>v. (v, cosine (Some e) (item_embedding v))) (vectors st))"
    by (simp add: full_def mset_stable_sort score_all_def)
  have d: "desc full" using r by (simp add: full_def desc_stable_sort)
  have f: "\<forall>s. filter (tie s) full
      = filter (tie s) (map (\<lambda>v. (v, cosine (Some e) (item_embedding v))) (vectors st))"
    using r filter_stable_sort [of "score_all e (vectors st)"]
    by (simp add: full_def score_all_def)
  have l: "length (fst (queryVectors engine st (Some e) (Some k) rem)) = min (nat k) (length (vectors st))"
    unfolding q by (simp add: full_def length_stable_sort score_all_def)
  from q m d f l show ?thesis by blast
qed

theorem queryVectors_ranking_witness:
  "chromaCollection (memory_server [cats, dogs, rockets]) = None \<and> (0::int) \<le> 2
   \<and> cosine (Some [one]) (item_embedding cats) \<noteq> NaN
   \<and> cosine (Some [one]) (item_embedding dogs) \<noteq> NaN
   \<and> cosine (Some [one]) (item_embedding rockets) \<noteq> NaN
   \<and> (\<forall>engine.
        queryVectors engine (memory_server [cats, dogs, rockets]) (Some [one]) (Some 2) answering
          = ([MemoryHit dogs one, MemoryHit cats minus_one], []))
   \<and> (\<forall>engine. \<exists>full.
        queryVectors engine (memory_server [cats, dogs, rockets]) (Some [one]) (Some 2) answering
          = (map (\<lambda>(v, s). MemoryHit v s) (take (nat 2) full), [])
        \<and> mset full = mset (map (\<lambda>v. (v, cosine (Some [one]) (item_embedding v)))
                               (vectors (memory_server [cats, dogs, rockets])))
        \<and> desc full
        \<and> (\<forall>s. filter (tie s) full
              = filter (tie s) (map (\<lambda>v. (v, cosine (Some [one]) (item_embedding v)))
                                 (vectors (memory_server [cats, dogs, rockets]))))
        \<and> length (fst (queryVectors engine (memory_server [cats, dogs, rockets]) (Some [one])
                          (Some 2) answering))
            = min (nat 2) (length (vectors (memory_server [cats, dogs, rockets]))))"
proof -
  have c1: "cosine (Some [one]) (Some [one]) = one"
    by (simp add: f64_eval cong: let_weak_cong)
  have c: "cosine (Some [one]) (item_embedding cats) = minus_one"
    "cosine (Some [one]) (item_embedding dogs) = one"
    "cosine (Some [one]) (item_embedding rockets) = minus_one"
    using c1 by (simp_all add: cats_def dogs_def rockets_def cosine_def)
  have h0: "chromaCollection (memory_server [cats, dogs, rockets]) = None"
    by (simp add: memory_server_def)
  have h1: "(0::int) \<le> 2" by simp
  have h: "\<forall>v \<in> set (vectors (memory_server [cats, dogs, rockets])).
      cosine (Some [one]) (item_embedding v) \<noteq> NaN"
    using c by (simp add: memory_server_def one_def minus_one_def)
  have b: "before one minus_one" "\<not> before minus_one one" "\<not> before minus_one minus_one"
    by (simp_all add: f64_eval cong: let_weak_cong)
  have k: "consistent [minus_one, one, minus_one]"
    by (simp add: consistent_def one_def minus_one_def)
  have q: "\<forall>engine.
      queryVectors engine (memory_server [cats, dogs, rockets]) (Some [one]) (Some 2) answering
      = ([MemoryHit dogs one, MemoryHit cats minus_one], [])"
    using c b k
    by (simp add: queryVectors_def chroma_query_def memory_server_def memory_query_def
        score_all_def slice0_def js_sort_def)
  have n: "cosine (Some [one]) (item_embedding cats) \<noteq> NaN"
    "cosine (Some [one]) (item_embedding dogs) \<noteq> NaN"
    "cosine (Some [one]) (item_embedding rockets) \<noteq> NaN"
    using c by (simp_all add: one_def minus_one_def)
  have t: "\<forall>engine. \<exists>full.
        queryVectors engine (memory_server [cats, dogs, rockets]) (Some [one]) (Some 2) answering
          = (map (\<lambda>(v, s). MemoryHit v s) (take (nat 2) full), [])
        \<and> mset full = mset (map (\<lambda>v. (v, cosine (Some [one]) (item_embedding v)))
                               (vectors (memory_server [cats, dogs, rockets])))
        \<and> desc full
        \<and> (\<forall>s. filter (tie s) full
              = filter (tie s) (map (\<lambda>v. (v, cosine (Some [one]) (item_embedding v)))
                                 (vectors (memory_server [cats, dogs, rockets]))))
        \<and> length (fst (queryVectors engine (memory_server [cats, dogs, rockets]) (Some [one])
                          (Some 2) answering))
            = min (nat 2) (length (vectors (memory_server [cats, dogs, rockets])))"
  proof
    fix engine
    show "\<exists>full.
        queryVectors engine (memory_server [cats, dogs, rockets]) (Some [one]) (Some 2) answering
          = (map (\<lambda>(v, s). MemoryHit v s) (take (nat 2) full), [])
        \<and> mset full = mset (map (\<lambda>v. (v, cosine (Some [one]) (item_embedding v)))
                               (vectors (memory_server [cats, dogs, rockets])))
        \<and> desc full
        \<and> (\<forall>s. filter (tie s) full
              = filter (tie s) (map (\<lambda>v. (v, cosine (Some [one]) (item_embedding v)))
                                 (vectors (memory_server [cats, dogs, rockets]))))
        \<and> length (fst (queryVectors engine (memory_server [cats, dogs, rockets]) (Some [one])
                          (Some 2) answering))
            = min (nat 2) (length (vectors (memory_server [cats, dogs, rockets])))"
      by (rule queryVectors_ranking [of "memory_server [cats, dogs, rockets]" 2 "[one]" engine
            answering, OF h0 h1 h])
  qed
  from h0 h1 n q t show ?thesis by (intro conjI)
qed

text \<open>
  The claim C2 fails where a stored embedding is a zero vector: its score is \<^verbatim>\<open>NaN\<close>, and
  with the two records below no comparison puts either before the other, so every engine
  leaves the record of score \<^verbatim>\<open>NaN\<close> ahead of the record of score \<open>1\<close>. It also fails at a
  negative \<open>k\<close>: \<^verbatim>\<open>slice(0, -1)\<close> drops the last element only, so one result is returned
  for \<open>k = -1\<close>.
\<close>

theorem queryVectors_ranking_counterexample:
  "(\<forall>engine. queryVectors engine
     (memory_server
        [\<lparr>item_id = ''1'', item_text = ''a'', item_embedding = Some [zero], item_meta = []\<rparr>,
         \<lparr>item_id = ''2'', item_text = ''b'', item_embedding = Some [one], item_meta = []\<rparr>])
     (Some [one]) (Some 2) answering
   = ([MemoryHit \<lparr>item_id = ''1'', item_text = ''a'', item_embedding = Some [zero], item_meta = []\<rparr> NaN,
       MemoryHit \<lparr>item_id = ''2'', item_text = ''b'', item_embedding = Some [one], item_meta = []\<rparr> one],
      []))
   \<and> \<not> f64_ge NaN one
   \<and> \<not> desc [(\<lparr>item_id = ''1'', item_text = ''a'', item_embedding = Some [zero], item_meta = []\<rparr>, NaN),
              (\<lparr>item_id = ''2'', item_text = ''b'', item_embedding = Some [one], item_meta = []\<rparr>, one)]
   \<and> (\<forall>engine. length (fst (queryVectors engine
        (memory_server
           [\<lparr>item_id = ''1'', item_text = ''a'', item_embedding = Some [zero], item_meta = []\<rparr>,
            \<lparr>item_id = ''2'', item_text = ''b'', item_embedding = Some [one], item_meta = []\<rparr>])
        (Some [one]) (Some (- 1)) answering)) = 1)"
proof -
  have c0: "cosine (Some [one]) (Some [zero]) = NaN"
    using cosine_zero_left [of "[zero]" "[one]"] cosine_commute [of "Some [one]" "Some [zero]"]
    by (simp add: zero_def)
  have c1: "cosine (Some [one]) (Some [one]) = one"
    by (simp add: f64_eval cong: let_weak_cong)
  have b: "\<not> before one NaN" "\<not> before NaN one" "\<not> before NaN NaN" "\<not> before one one"
    by (simp_all add: before_def fsub_def one_def signed_def)
  then have k: "consistent [NaN, one]"
    by (simp add: consistent_def)
  show ?thesis
    using c0 c1 b k
    by (simp add: queryVectors_def chroma_query_def memory_server_def memory_query_def
        score_all_def slice0_def desc_def f64_ge_def js_sort_def)
qed

section \<open>The embedding helper and the undeclared client\<close>

text \<open>
  C1 against the code: in the scope the module builds, whatever clients the configuration
  yields, \<open>embedText\<close> ends in a ReferenceError for every text, and \<open>addVector\<close> passes the
  error on to its caller. The claim asks for \<^verbatim>\<open>null\<close> and a stored record instead.
\<close>

theorem embedText_reference_error:
  "embedText (module_scope chat emb) txt = Inl (ReferenceError ''openaiClient'')
   \<and> addVector (module_scope chat emb) st req rem = Inl (ReferenceError ''openaiClient'')"
  by (simp add: embedText_def addVector_def module_scope_def)

section \<open>The query without an embedding\<close>

text \<open>
  C9: for every \<open>k\<close>, every store, every remote service and every engine, \<open>queryVectors\<close>
  with an absent
  embedding returns the empty sequence and has made no call; and a query without \<open>k\<close> is
  the query with \<open>k = 3\<close>.
\<close>

theorem queryVectors_absent:
  "queryVectors engine st None kopt rem = ([], [])
   \<and> queryVectors engine st embedding None rem = queryVectors engine st embedding (Some 3) rem"
  by (simp add: queryVectors_def)

section \<open>After a failed initialisation\<close>

lemma chroma_init_failed:
  assumes "init_failed cfg rem"
  shows "chromaCollection (fst (chroma_init cfg rem initial_server)) = None"
    and "store_kind (fst (chroma_init cfg rem initial_server)) = Memory"
  using assms
  by (auto simp: init_failed_def chroma_init_def setup_collection_def initial_server_def
      split: outcome.splits)

lemma addVector_store_fallback:
  "chromaCollection st = None \<Longrightarrow>
   addVector_store st emb req rem
     = (make_item st emb req, st\<lparr>vectors := vectors st @ [make_item st emb req]\<rparr>, [])"
  by (simp add: addVector_store_def chroma_add_def Let_def)

lemma listVectors_fallback:
  "chromaCollection st = None \<Longrightarrow> listVectors st rem = (map memory_item (vectors st), [])"
  by (simp add: listVectors_def)

lemma clearVectors_fallback:
  "chromaCollection st = None \<Longrightarrow> clearVectors st rem = (Ok_true, clear_memory st, [])"
  by (simp add: clearVectors_def chroma_clear_def)

lemma step_fallback:
  assumes "chromaCollection st = None"
  shows "snd (step engine sc st rq rem) = []"
    and "chromaCollection (fst (step engine sc st rq rem)) = None"
    and "store_kind (fst (step engine sc st rq rem)) = store_kind st"
proof -
  have "snd (step engine sc st rq rem) = [] \<and> chromaCollection (fst (step engine sc st rq rem)) = None
      \<and> store_kind (fst (step engine sc st rq rem)) = store_kind st"
  proof (cases rq)
    case (Add req)
    then show ?thesis using assms
      by (simp add: step_def addVector_def addVector_store_fallback split: sum.splits)
  next
    case (Query e k)
    show ?thesis
    proof (cases e)
      case None
      with Query show ?thesis using assms by (simp add: step_def queryVectors_def)
    next
      case (Some a)
      with Query show ?thesis using assms by (simp add: step_def queryVectors_memory)
    qed
  next
    case List
    then show ?thesis using assms by (simp add: step_def listVectors_fallback)
  next
    case Clear
    then show ?thesis using assms
      by (simp add: step_def clearVectors_fallback clear_memory_def)
  qed
  then show "snd (step engine sc st rq rem) = []"
    and "chromaCollection (fst (step engine sc st rq rem)) = None"
    and "store_kind (fst (step engine sc st rq rem)) = store_kind st"
    by simp_all
qed

lemma run_fallback:
  "chromaCollection st = None \<Longrightarrow>
   snd (run engine sc st ops) = [] \<and> chromaCollection (fst (run engine sc st ops)) = None
   \<and> store_kind (fst (run engine sc st ops)) = store_kind st"
proof (induction ops arbitrary: st)
  case Nil
  then show ?case by simp
next
  case (Cons op ops)
  obtain rq rem where op: "op = (rq, rem)" by (cases op)
  obtain st' calls where s: "step engine sc st rq rem = (st', calls)" by (cases "step engine sc st rq rem")
  have f: "calls = []" "chromaCollection st' = None" "store_kind st' = store_kind st"
    using step_fallback [OF Cons.prems, of engine sc rq rem] s by simp_all
  from Cons.IH [OF f(2)] f s op show ?case
    by (simp split: prod.splits)
qed

text \<open>\<^verbatim>\<open>vectorStore.type\<close> is assigned by the initialisation only.\<close>

lemma step_kind: "store_kind (fst (step engine sc st rq rem)) = store_kind st"
proof (cases rq)
  case (Add req)
  then show ?thesis
    by (auto simp: step_def addVector_def addVector_store_def Let_def
        split: sum.splits prod.splits)
next
  case Clear
  then show ?thesis
    by (auto simp: step_def clearVectors_def chroma_clear_def clear_memory_def
        split: option.splits outcome.splits prod.splits if_splits)
qed (simp_all add: step_def)

lemma run_kind: "store_kind (fst (run engine sc st ops)) = store_kind st"
proof (induction ops arbitrary: st)
  case Nil
  then show ?case by simp
next
  case (Cons op ops)
  obtain rq rem where op: "op = (rq, rem)" by (cases op)
  obtain st' calls where s: "step engine sc st rq rem = (st', calls)" by (cases "step engine sc st rq rem")
  obtain st'' calls' where r: "run engine sc st' ops = (st'', calls')" by (cases "run engine sc st' ops")
  have "store_kind st' = store_kind st" using step_kind [of engine sc st rq rem] s by simp
  with Cons.IH [of st'] s op r show ?case
    by simp
qed

text \<open>
  C6: when the initialisation of Chroma fails (the client cannot be built, or the
  collection can be neither fetched nor created), no collection is held and the store's
  type is \<open>memory\<close>; from that state, every sequence of add, query, list and clear
  operations, whatever the remote service would answer by then, makes no remote call,
  still holds no collection at its end, and leaves the type \<open>memory\<close>. From any state at
  all, no sequence of operations changes the store's type.
\<close>

theorem failed_init_stays_fallback:
  assumes "init_failed cfg rem0"
  shows "chromaCollection (fst (chroma_init cfg rem0 initial_server)) = None
     \<and> store_kind (fst (chroma_init cfg rem0 initial_server)) = Memory
     \<and> snd (run engine sc (fst (chroma_init cfg rem0 initial_server)) ops) = []
     \<and> chromaCollection (fst (run engine sc (fst (chroma_init cfg rem0 initial_server)) ops)) = None
     \<and> store_kind (fst (run engine sc (fst (chroma_init cfg rem0 initial_server)) ops)) = Memory
     \<and> store_kind (fst (run engine sc st ops)) = store_kind st"
  using chroma_init_failed [OF assms]
    run_fallback [of "fst (chroma_init cfg rem0 initial_server)" engine sc ops]
    run_kind [of engine sc st ops]
  by simp

theorem failed_init_stays_fallback_witness:
  "init_failed \<lparr>enable_chroma = True, chroma_module = True\<rparr> unreachable
   \<and> init_failed \<lparr>enable_chroma = True, chroma_module = True\<rparr>
       (unreachable\<lparr>client_construct := Returns full_client\<rparr>)
   \<and> snd (run (\<lambda>scores. []) (module_scope None None)
        (fst (chroma_init \<lparr>enable_chroma = True, chroma_module = True\<rparr>
                (unreachable\<lparr>client_construct := Returns full_client\<rparr>) initial_server))
        [(Add \<lparr>req_id = None, req_text = ''cats'', req_meta = None\<rparr>, answering),
         (Query (Some [one]) None, answering), (List, answering), (Clear, answering)]) = []
   \<and> chromaCollection (fst (run (\<lambda>scores. []) (module_scope None None)
        (fst (chroma_init \<lparr>enable_chroma = True, chroma_module = True\<rparr>
                (unreachable\<lparr>client_construct := Returns full_client\<rparr>) initial_server))
        [(Add \<lparr>req_id = None, req_text = ''cats'', req_meta = None\<rparr>, answering),
         (Query (Some [one]) None, answering), (List, answering), (Clear, answering)])) = None"
proof -
  have a: "init_failed \<lparr>enable_chroma = True, chroma_module = True\<rparr> unreachable"
    by (simp add: init_failed_def unreachable_def)
  have b: "init_failed \<lparr>enable_chroma = True, chroma_module = True\<rparr>
       (unreachable\<lparr>client_construct := Returns full_client\<rparr>)"
    by (simp add: init_failed_def unreachable_def full_client_def)
  from failed_init_stays_fallback [OF b] a b show ?thesis by blast
qed

section \<open>Clearing and then listing\<close>

lemma clearVectors_ok: "fst (clearVectors st rem) = Ok_true"
  by (simp add: clearVectors_def split: prod.splits option.splits)

lemma clearVectors_failed:
  "snd (chroma_clear st rem) = None \<Longrightarrow>
   fst (snd (clearVectors st rem)) = clear_memory st"
  by (cases "chroma_clear st rem") (simp add: clearVectors_def)

lemma listVectors_memory_empty:
  "vectors st = [] \<Longrightarrow> chromaCollection st = None \<or> collection_get rem = Throws
   \<Longrightarrow> fst (listVectors st rem) = []"
  by (auto simp: listVectors_def split: option.splits)

text \<open>
  C8, as the code has it: \<open>clearVectors\<close> always answers \<^verbatim>\<open>{ ok: true }\<close>. With the Fallback
  Backend active it makes no call, and the \<open>listVectors\<close> that follows returns the empty
  sequence. When the remote clear fails, the in-memory sequence is emptied instead and the
  collection stays in place; the \<open>listVectors\<close> that follows is empty when it is served
  from memory (its \<^verbatim>\<open>get\<close> throws), and is what Chroma answers otherwise.
\<close>

theorem clearVectors_then_listVectors:
  assumes "clearVectors st rem = (r, st', calls)"
  shows "r = Ok_true
     \<and> (chromaCollection st = None \<longrightarrow> calls = [] \<and> listVectors st' rem' = ([], []))
     \<and> (remote_clear_failed st rem \<longrightarrow>
          vectors st' = [] \<and> chromaCollection st' = chromaCollection st
          \<and> (collection_get rem' = Throws \<longrightarrow> fst (listVectors st' rem') = []))"
proof -
  have r: "r = Ok_true" using clearVectors_ok [of st rem] assms by simp
  have a: "calls = [] \<and> listVectors st' rem' = ([], [])" if "chromaCollection st = None"
    using that assms by (auto simp: clearVectors_fallback clear_memory_def listVectors_def)
  have b: "vectors st' = [] \<and> chromaCollection st' = chromaCollection st
      \<and> (collection_get rem' = Throws \<longrightarrow> fst (listVectors st' rem') = [])"
    if "remote_clear_failed st rem"
  proof -
    from that have "st' = clear_memory st"
      using clearVectors_failed [of st rem] assms by (simp add: remote_clear_failed_def)
    then have v: "vectors st' = []" "chromaCollection st' = chromaCollection st"
      by (simp_all add: clear_memory_def)
    with listVectors_memory_empty [of st' rem'] show ?thesis by blast
  qed
  from r a b show ?thesis by blast
qed

theorem clearVectors_then_listVectors_witness:
  "clearVectors (memory_server [cats, dogs]) answering = (Ok_true, memory_server [], [])
   \<and> listVectors (memory_server []) answering = ([], [])
   \<and> remote_clear_failed (chroma_server [cats, dogs]) unreachable
   \<and> clearVectors (chroma_server [cats, dogs]) unreachable
      = (Ok_true, chroma_server [], [CollectionDelete])
   \<and> fst (listVectors (chroma_server []) unreachable) = []"
proof -
  have c1: "clearVectors (memory_server [cats, dogs]) answering = (Ok_true, memory_server [], [])"
    by (simp add: clearVectors_def chroma_clear_def memory_server_def clear_memory_def)
  have f: "remote_clear_failed (chroma_server [cats, dogs]) unreachable"
    by (simp add: remote_clear_failed_def chroma_clear_def chroma_server_def
        full_collection_def unreachable_def)
  have c2: "clearVectors (chroma_server [cats, dogs]) unreachable
      = (Ok_true, chroma_server [], [CollectionDelete])"
    by (simp add: clearVectors_def chroma_clear_def chroma_server_def clear_memory_def
        full_collection_def unreachable_def)
  have g: "collection_get unreachable = Throws" by (simp add: unreachable_def)
  have n: "chromaCollection (memory_server [cats, dogs]) = None" by (simp add: memory_server_def)
  from clearVectors_then_listVectors [OF c1, of answering]
    clearVectors_then_listVectors [OF c2, of unreachable] c1 c2 f g n
  show ?thesis by simp
qed

text \<open>
  The claim C8 fails with Chroma active when its \<^verbatim>\<open>delete\<close> throws: the handler empties the
  in-memory sequence and answers \<^verbatim>\<open>{ ok: true }\<close>, and the listing that follows asks Chroma,
  which still holds its record. The state is the one a successful initialisation leaves.
\<close>

theorem clearVectors_then_listVectors_counterexample:
  "fst (chroma_init \<lparr>enable_chroma = True, chroma_module = True\<rparr> answering initial_server)
     = chroma_server []
   \<and> clearVectors (chroma_server []) unreachable
     = (Ok_true, chroma_server [], [CollectionDelete])
   \<and> listVectors (chroma_server [])
        (unreachable\<lparr>collection_get :=
           Returns \<lparr>g_ids = Some (Flat [''1'']), g_documents = Some (Flat [''cats'']),
                    g_metadatas = None, g_embeddings = None\<rparr>\<rparr>)
     = ([\<lparr>listed_id = Some ''1'', listed_text = Some ''cats'', listed_meta = None,
          listed_embedding = None\<rparr>], [CollectionGet])"
  by (simp add: clearVectors_def chroma_clear_def chroma_server_def clear_memory_def
      full_collection_def full_client_def unreachable_def answering_def listVectors_def
      chroma_items_def normalize_def normalize_embeddings_def truthy_embedding_def
      elem_at_def truthy_string_def chroma_init_def
      setup_collection_def initial_server_def)

section \<open>The record that addVector returns\<close>

lemma digit_char_inj: "a < 10 \<Longrightarrow> b < 10 \<Longrightarrow> digit_char a = digit_char b \<Longrightarrow> a = b"
proof -
  have d: "distinct ''0123456789''" by simp
  have l: "length ''0123456789'' = 10" by simp
  show "a < 10 \<Longrightarrow> b < 10 \<Longrightarrow> digit_char a = digit_char b \<Longrightarrow> a = b"
    unfolding digit_char_def
    using nth_eq_iff_index_eq [OF d, of a b] l by simp
qed

lemma toString_nonempty: "toString n \<noteq> []"
  by (simp add: toString.simps [of n])

lemma toString_inj: "toString n = toString m \<Longrightarrow> n = m"
proof (induction n arbitrary: m rule: toString.induct)
  case (1 n)
  show ?case
  proof (cases "n < 10")
    case True
    note n = this
    show ?thesis
    proof (cases "m < 10")
      case True
      with n 1(2) show ?thesis
        by (simp add: toString.simps [of n] toString.simps [of m] digit_char_inj)
    next
      case False
      with n 1(2) toString_nonempty [of "m div 10"] show ?thesis
        by (simp add: toString.simps [of n] toString.simps [of m])
    qed
  next
    case False
    note n = this
    show ?thesis
    proof (cases "m < 10")
      case True
      with n 1(2) toString_nonempty [of "n div 10"] show ?thesis
        by (simp add: toString.simps [of n] toString.simps [of m])
    next
      case False
      with n 1(2) have e: "toString (n div 10) = toString (m div 10)"
        "digit_char (n mod 10) = digit_char (m mod 10)"
        by (simp_all add: toString.simps [of n] toString.simps [of m])
      have "n div 10 = m div 10" using 1(1) [OF n e(1)] .
      moreover have "n mod 10 = m mod 10" using e(2) by (simp add: digit_char_inj)
      ultimately show ?thesis by (metis div_mult_mod_eq)
    qed
  qed
qed

lemma store_assigned_distinct: "store_assigned vs \<Longrightarrow> distinct (map item_id vs)"
  unfolding store_assigned_def
  by (auto simp: distinct_map inj_on_def dest: toString_inj)

lemma store_assigned_append:
  "store_assigned vs \<Longrightarrow> item_id v = toString (length vs + 1) \<Longrightarrow> store_assigned (vs @ [v])"
  by (simp add: store_assigned_def)

lemma make_item_assigned:
  "req_id req = None \<or> req_id req = Some [] \<Longrightarrow>
   item_id (make_item st emb req) = toString (length (vectors st) + 1)"
  by (auto simp: make_item_def)

lemma toString_small:
  "toString (Suc 0) = ''1''" "toString (Suc (Suc 0)) = ''2''"
  "toString (Suc (Suc (Suc 0))) = ''3''"
  by (simp_all add: toString.simps [of "Suc 0"] toString.simps [of "Suc (Suc 0)"]
      toString.simps [of "Suc (Suc (Suc 0))"] digit_char_def)

lemma make_item_id: "item_id (make_item st emb req) \<noteq> []"
  by (simp add: make_item_def toString_nonempty split: option.splits)

text \<open>
  What lines 156 to 185 do with the result of the embedding step: the record has the text
  of the request, that embedding and an id that is not empty. With the Fallback Backend
  active, no id in the request and a store whose ids were all assigned by the store, the
  record is appended, the ids are again all store-assigned, and the ids that
  \<open>listVectors\<close> then shows are pairwise distinct and contain the new one.
\<close>

lemma addVector_store_record:
  "\<exists>v st' calls.
     addVector_store st emb req rem = (v, st', calls)
     \<and> item_text v = req_text req \<and> item_embedding v = emb \<and> item_id v \<noteq> []
     \<and> (chromaCollection st = None \<and> (req_id req = None \<or> req_id req = Some [])
          \<and> store_assigned (vectors st)
        \<longrightarrow> vectors st' = vectors st @ [v] \<and> store_assigned (vectors st')
            \<and> distinct (map listed_id (fst (listVectors st' rem')))
            \<and> Some (item_id v) \<in> set (map listed_id (fst (listVectors st' rem'))))"
proof -
  obtain v st' calls where s: "addVector_store st emb req rem = (v, st', calls)"
    by (cases "addVector_store st emb req rem")
  have v: "v = make_item st emb req"
    using s by (simp add: addVector_store_def Let_def split: prod.splits)
  have f: "item_text v = req_text req" "item_embedding v = emb" "item_id v \<noteq> []"
    using v make_item_id [of st emb req] by (simp_all add: make_item_def)
  have u: "chromaCollection st = None \<and> (req_id req = None \<or> req_id req = Some [])
          \<and> store_assigned (vectors st)
        \<longrightarrow> vectors st' = vectors st @ [v] \<and> store_assigned (vectors st')
            \<and> distinct (map listed_id (fst (listVectors st' rem')))
            \<and> Some (item_id v) \<in> set (map listed_id (fst (listVectors st' rem')))"
  proof (intro impI, elim conjE)
    assume h: "chromaCollection st = None" "req_id req = None \<or> req_id req = Some []"
      "store_assigned (vectors st)"
    have st': "st' = st\<lparr>vectors := vectors st @ [v]\<rparr>"
      using s v addVector_store_fallback [OF h(1), of emb req rem] by simp
    then have vs: "vectors st' = vectors st @ [v]" and c: "chromaCollection st' = None"
      using h(1) by simp_all
    have sa: "store_assigned (vectors st')"
      unfolding vs using h(3) v make_item_assigned [OF h(2), of st emb]
      by (intro store_assigned_append) simp_all
    have l: "fst (listVectors st' rem') = map memory_item (vectors st')"
      using c by (simp add: listVectors_fallback)
    have m: "map listed_id (map memory_item (vectors st')) = map Some (map item_id (vectors st'))"
      by (simp add: memory_item_def)
    have d: "distinct (map listed_id (fst (listVectors st' rem')))"
      unfolding l m using store_assigned_distinct [OF sa]
      by (simp add: distinct_map inj_on_def)
    have i: "Some (item_id v) \<in> set (map listed_id (fst (listVectors st' rem')))"
      unfolding l vs by (simp add: memory_item_def)
    from vs sa d i
    show "vectors st' = vectors st @ [v] \<and> store_assigned (vectors st')
      \<and> distinct (map listed_id (fst (listVectors st' rem')))
      \<and> Some (item_id v) \<in> set (map listed_id (fst (listVectors st' rem')))"
      by (intro conjI)
  qed
  from s f u show ?thesis by (intro exI conjI)
qed

text \<open>
  C7 against the code: in the scope the module builds, whatever clients the configuration
  yields, \<open>addVector\<close> returns no record, for any request, state, remote service and
  engine; as a request it leaves the state as it was and reaches no backend, so the
  \<open>listVectors\<close> that follows shows what it showed before and no record of that text.
  The claim asks for a record with the text of the request and a new id.
\<close>

theorem addVector_returns_no_record:
  "(\<nexists>v st' calls. addVector (module_scope chat emb) st req rem = Inr (v, st', calls))
   \<and> step engine (module_scope chat emb) st (Add req) rem = (st, [])
   \<and> listVectors (fst (step engine (module_scope chat emb) st (Add req) rem)) rem'
       = listVectors st rem'"
proof -
  have a: "addVector (module_scope chat emb) st req rem = Inl (ReferenceError ''openaiClient'')"
    by (simp add: embedText_def addVector_def module_scope_def)
  then show ?thesis by (simp add: step_def)
qed

section \<open>What a query leaves of the store\<close>

lemma map_stable_sort:
  "\<forall>x \<in> set xs. f x = g (h x) \<Longrightarrow> map h (stable_sort f xs) = stable_sort g (map h xs)"
proof (induction xs)
  case Nil
  then show ?case by simp
next
  case (Cons x xs)
  have ins: "\<forall>y \<in> set ys. f y = g (h y) \<Longrightarrow> f x = g (h x) \<Longrightarrow>
      map h (sort_insert f x ys) = sort_insert g (h x) (map h ys)" for ys
    by (induction ys) auto
  from Cons show ?case
    by (simp add: ins set_stable_sort)
qed

lemma map_permute: "map h (permute xs ps) = permute (map h xs) ps"
  by (simp add: permute_def)

lemma set_permute: "set (permute xs ps) \<subseteq> set xs"
  by (auto simp: permute_def)

lemma map_js_sort:
  assumes "\<forall>x \<in> set xs. f x = g (h x)"
  shows "map h (js_sort engine f xs) = js_sort engine g (map h xs)"
proof -
  have "map f xs = map g (map h xs)" using assms by simp
  then show ?thesis
    using map_stable_sort [of xs f g h] assms
    by (simp add: js_sort_def map_permute del: map_map)
qed

lemma set_js_sort: "set (js_sort engine f xs) \<subseteq> set xs"
  using set_permute [of xs] by (simp add: js_sort_def set_stable_sort)

lemma map_slice0: "map h (slice0 xs k) = slice0 (map h xs) k"
  by (simp add: slice0_def take_map)

lemma set_slice0: "set (slice0 xs k) \<subseteq> set xs"
  by (auto simp: slice0_def dest: in_set_takeD)

lemma map_Some_defined: "map f xs = map Some ys \<Longrightarrow> x \<in> set xs \<Longrightarrow> f x \<noteq> None"
proof (induction xs arbitrary: ys)
  case Nil
  then show ?case by simp
next
  case (Cons a xs)
  then show ?case by (cases ys) auto
qed

lemma item_of_cell: "item_of h x \<noteq> None \<Longrightarrow> cells h x \<noteq> None"
  by (auto simp: item_of_def split: option.splits)

text \<open>
  The mapping step allocates one object for each stored item, above everything that was
  there, and changes nothing below.
\<close>

lemma map_scored_frame:
  assumes "map (item_of h) rs = map Some vs"
    and "\<forall>a. next_ref h \<le> a \<longrightarrow> cells h a = None"
  shows "\<exists>rs' h'. map_scored e rs h = Some (rs', h')
     \<and> next_ref h \<le> next_ref h'
     \<and> (\<forall>a. a < next_ref h \<longrightarrow> cells h' a = cells h a)
     \<and> (\<forall>a. next_ref h' \<le> a \<longrightarrow> cells h' a = None)
     \<and> (\<forall>r \<in> set rs'. next_ref h \<le> r \<and> r < next_ref h')
     \<and> map (hit_of h') rs' = map Some (score_all e vs)"
  using assms
proof (induction rs arbitrary: h vs)
  case Nil
  then show ?case by (simp add: score_all_def)
next
  case (Cons r rs)
  from Cons.prems(1) obtain v vs' where vs: "vs = v # vs'" and
    r: "item_of h r = Some v" and rs: "map (item_of h) rs = map Some vs'"
    by (cases vs) auto
  from r have cr: "cells h r = Some (Object v None)"
    by (auto simp: item_of_def split: option.splits cell.splits)
  define s where "s = cosine (Some e) (item_embedding v)"
  define h1 where "h1 = h\<lparr>cells := (cells h)(next_ref h \<mapsto> Object v (Some s)), next_ref := Suc (next_ref h)\<rparr>"
  have al: "alloc (Object v (Some s)) h = (next_ref h, h1)"
    by (simp add: alloc_def h1_def)
  have below: "\<forall>a. a < next_ref h \<longrightarrow> cells h1 a = cells h a"
    by (simp add: h1_def)
  have dom: "\<And>a. cells h a \<noteq> None \<Longrightarrow> a < next_ref h"
    using Cons.prems(2) by (metis not_le)
  have rs1: "map (item_of h1) rs = map Some vs'"
  proof -
    have "item_of h1 x = item_of h x" if "x \<in> set rs" for x
    proof -
      from rs that have "item_of h x \<noteq> None" by (rule map_Some_defined)
      then have "cells h x \<noteq> None" by (rule item_of_cell)
      then have "x < next_ref h" by (rule dom)
      then show ?thesis by (simp add: item_of_def h1_def)
    qed
    then have "map (item_of h1) rs = map (item_of h) rs" by simp
    with rs show ?thesis by simp
  qed
  have top1: "\<forall>a. next_ref h1 \<le> a \<longrightarrow> cells h1 a = None"
    using Cons.prems(2) by (simp add: h1_def)
  from Cons.IH [OF rs1 top1] obtain rs' h' where
    ih: "map_scored e rs h1 = Some (rs', h')" "next_ref h1 \<le> next_ref h'"
      "\<forall>a. a < next_ref h1 \<longrightarrow> cells h' a = cells h1 a"
      "\<forall>a. next_ref h' \<le> a \<longrightarrow> cells h' a = None"
      "\<forall>r \<in> set rs'. next_ref h1 \<le> r \<and> r < next_ref h'"
      "map (hit_of h') rs' = map Some (score_all e vs')"
    by blast
  have n1: "next_ref h1 = Suc (next_ref h)" by (simp add: h1_def)
  have m: "map_scored e (r # rs) h = Some (next_ref h # rs', h')"
    using cr al ih(1) by (simp add: s_def)
  have new: "cells h' (next_ref h) = Some (Object v (Some s))"
    using ih(3) n1 by (simp add: h1_def)
  have "next_ref h \<le> next_ref h'" using ih(2) n1 by simp
  moreover have "\<forall>a. a < next_ref h \<longrightarrow> cells h' a = cells h a"
    using ih(3) below n1 by simp
  moreover have "\<forall>r \<in> set (next_ref h # rs'). next_ref h \<le> r \<and> r < next_ref h'"
    using ih(2,5) n1 by auto
  moreover have "map (hit_of h') (next_ref h # rs') = map Some (score_all e vs)"
    using ih(6) new by (simp add: vs score_all_def hit_of_def s_def)
  ultimately show ?case using m ih(4) by blast
qed

text \<open>
  C10 on the heap: when the heap holds the store \<open>vs\<close> at \<^verbatim>\<open>vectorStore.vectors\<close>, the query
  returns, in every engine; every cell that existed before it, the array of the store and each stored
  object among them, is the same after it; the heap still holds the store \<open>vs\<close>, the same
  records in the same order and none with a score; and the array returned holds the hits
  of the query, which are new objects.
\<close>

theorem heap_query_frame:
  assumes "holds_store h vectors_ref vs"
  shows "\<exists>res h'. heap_query engine h vectors_ref e k = Some (res, h')
     \<and> (\<forall>a. a < next_ref h \<longrightarrow> cells h' a = cells h a)
     \<and> holds_store h' vectors_ref vs
     \<and> next_ref h \<le> res
     \<and> holds_hits h' res (memory_query engine vs e k)"
proof -
  from assms obtain rs where v: "cells h vectors_ref = Some (Array rs)"
    and it: "map (item_of h) rs = map Some vs"
    and top: "\<forall>a. next_ref h \<le> a \<longrightarrow> cells h a = None"
    by (auto simp: holds_store_def split: option.splits cell.splits)
  from map_scored_frame [OF it top, of e] obtain rs' h1 where
    m: "map_scored e rs h = Some (rs', h1)" "next_ref h \<le> next_ref h1"
      "\<forall>a. a < next_ref h \<longrightarrow> cells h1 a = cells h a"
      "\<forall>a. next_ref h1 \<le> a \<longrightarrow> cells h1 a = None"
      "\<forall>r \<in> set rs'. next_ref h \<le> r \<and> r < next_ref h1"
      "map (hit_of h1) rs' = map Some (score_all e vs)"
    by blast
  define scored where "scored = next_ref h1"
  define h2 where "h2 = h1\<lparr>cells := (cells h1)(scored \<mapsto> Array rs'), next_ref := Suc scored\<rparr>"
  define sorted where "sorted = js_sort engine (score_at h2) rs'"
  define h3 where "h3 = h2\<lparr>cells := (cells h2)(scored \<mapsto> Array sorted)\<rparr>"
  define res where "res = next_ref h3"
  define h4 where "h4 = h3\<lparr>cells := (cells h3)(res \<mapsto> Array (slice0 sorted k)), next_ref := Suc res\<rparr>"
  have res: "res = Suc scored" by (simp add: res_def h3_def h2_def)
  have q: "heap_query engine h vectors_ref e k = Some (res, h4)"
    using v m(1)
    by (simp add: heap_query_def alloc_def Let_def scored_def h2_def sorted_def h3_def
        res_def h4_def)
  have c4: "cells h4 a = cells h1 a" if "a < next_ref h1" for a
    using that by (simp add: h4_def h3_def h2_def res scored_def)
  have frame: "\<forall>a. a < next_ref h \<longrightarrow> cells h4 a = cells h a"
    using c4 m(2,3) by (metis less_le_trans)
  have dom: "\<And>a. cells h a \<noteq> None \<Longrightarrow> a < next_ref h"
    using top by (metis not_le)
  have vlt: "vectors_ref < next_ref h" using v dom by simp
  have rlt: "x < next_ref h" if "x \<in> set rs" for x
  proof -
    from it that have "item_of h x \<noteq> None" by (rule map_Some_defined)
    then have "cells h x \<noteq> None" by (rule item_of_cell)
    then show ?thesis by (rule dom)
  qed
  have "map (item_of h4) rs = map (item_of h) rs"
    using rlt frame by (simp add: item_of_def)
  moreover have "cells h4 vectors_ref = Some (Array rs)" using frame vlt v by simp
  moreover have "\<forall>a. next_ref h4 \<le> a \<longrightarrow> cells h4 a = None"
    using m(4) by (simp add: h4_def h3_def h2_def res scored_def)
  ultimately have hs: "holds_store h4 vectors_ref vs"
    using it by (simp add: holds_store_def)
  have hit4: "hit_of h4 x = hit_of h1 x" if "x \<in> set rs'" for x
    using that m(5) c4 [of x] by (simp add: hit_of_def)
  have hit2: "score_at h2 x = snd (the (hit_of h1 x))" if "x \<in> set rs'" for x
  proof -
    from that m(5) have "x \<noteq> scored" by (auto simp: scored_def)
    moreover from m(6) that have "hit_of h1 x \<noteq> None" by (rule map_Some_defined)
    ultimately show ?thesis
      by (auto simp: score_at_def hit_of_def h2_def split: option.splits cell.splits)
  qed
  have the1: "map (\<lambda>x. the (hit_of h1 x)) rs' = score_all e vs"
  proof -
    have "map the (map (hit_of h1) rs') = map the (map Some (score_all e vs))"
      using m(6) by simp
    then show ?thesis by (simp add: comp_def)
  qed
  have srt: "map (\<lambda>x. the (hit_of h1 x)) sorted = js_sort engine snd (score_all e vs)"
    unfolding sorted_def
    using map_js_sort [of rs' "score_at h2" snd "\<lambda>x. the (hit_of h1 x)" engine] hit2 the1
    by simp
  have sub: "set (slice0 sorted k) \<subseteq> set rs'"
    using set_slice0 [of sorted k] set_js_sort [of engine "score_at h2" rs']
    by (simp add: sorted_def)
  have some: "hit_of h1 x = Some (the (hit_of h1 x))" if "x \<in> set rs'" for x
  proof -
    from m(6) that have "hit_of h1 x \<noteq> None" by (rule map_Some_defined)
    then show ?thesis by simp
  qed
  have "map (hit_of h4) (slice0 sorted k) = map Some (map (\<lambda>x. the (hit_of h1 x)) (slice0 sorted k))"
    using sub hit4 some by (auto simp: subset_iff)
  also have "\<dots> = map Some (memory_query engine vs e k)"
    using srt by (simp add: map_slice0 memory_query_def)
  finally have "map (hit_of h4) (slice0 sorted k) = map Some (memory_query engine vs e k)" .
  then have hh: "holds_hits h4 res (memory_query engine vs e k)"
    by (simp add: holds_hits_def h4_def)
  have rge: "next_ref h \<le> res" using m(2) by (simp add: res scored_def)
  from q frame hs rge hh show ?thesis by (intro exI conjI)
qed

theorem heap_query_frame_witness:
  "holds_store
     \<lparr>cells = [0 \<mapsto> Object cats None, 1 \<mapsto> Object dogs None, 2 \<mapsto> Array [0, 1]],
      next_ref = 3\<rparr> 2 [cats, dogs]
   \<and> (\<exists>res h'.
        heap_query (\<lambda>scores. [])
          \<lparr>cells = [0 \<mapsto> Object cats None, 1 \<mapsto> Object dogs None, 2 \<mapsto> Array [0, 1]],
           next_ref = 3\<rparr> 2 [one] 1 = Some (res, h')
        \<and> cells h' 0 = Some (Object cats None)
        \<and> cells h' 1 = Some (Object dogs None)
        \<and> cells h' 2 = Some (Array [0, 1])
        \<and> holds_store h' 2 [cats, dogs]
        \<and> 3 \<le> res
        \<and> holds_hits h' res (memory_query (\<lambda>scores. []) [cats, dogs] [one] 1))"
proof -
  define h where "h = \<lparr>cells = [0 \<mapsto> Object cats None, 1 \<mapsto> Object dogs None,
      2 \<mapsto> Array [0, 1::nat]], next_ref = 3\<rparr>"
  have hs: "holds_store h 2 [cats, dogs]"
    by (auto simp: holds_store_def item_of_def h_def)
  from heap_query_frame [OF hs, of "\<lambda>scores. []" "[one]" 1] obtain res h' where
    r: "heap_query (\<lambda>scores. []) h 2 [one] 1 = Some (res, h')"
      "\<forall>a. a < next_ref h \<longrightarrow> cells h' a = cells h a"
      "holds_store h' 2 [cats, dogs]" "next_ref h \<le> res"
      "holds_hits h' res (memory_query (\<lambda>scores. []) [cats, dogs] [one] 1)"
    by blast
  have "cells h' 0 = Some (Object cats None)" "cells h' 1 = Some (Object dogs None)"
    "cells h' 2 = Some (Array [0, 1])" "3 \<le> res"
    using r(2,4) by (simp_all add: h_def)
  with r(1,3,5) hs show ?thesis
    unfolding h_def by blast
qed

end
